theory Spec2Isabelle
  imports Complex_Main "HOL-Library.Sublist"
begin

section \<open>JavaScript values used by the feedback API\<close>

text \<open>
  Strings are lists of 8-bit characters; the case mapping is the ASCII one. A Number is
  an IEEE 754 binary64 value, written as the rational it denotes; \<open>to_double\<close> below
  rounds the exact result of an operation to the nearest such value.
\<close>

definition upper_letters :: string where
  "upper_letters = ''ABCDEFGHIJKLMNOPQRSTUVWXYZ''"

definition lower_letters :: string where
  "lower_letters = ''abcdefghijklmnopqrstuvwxyz''"

definition lower_char :: "char \<Rightarrow> char" where
  "lower_char c = (case map_of (zip upper_letters lower_letters) c of Some d \<Rightarrow> d | None \<Rightarrow> c)"

text \<open>\<open>String.prototype.toLowerCase\<close>.\<close>

definition toLowerCase :: "string \<Rightarrow> string" where
  "toLowerCase s = map lower_char s"

text \<open>White space removed by \<open>String.prototype.trim\<close>: space, tab, LF, VT, FF, CR, NBSP.\<close>

definition is_space :: "char \<Rightarrow> bool" where
  "is_space c = (c \<in> set [CHR '' '', CHR 0x09, CHR 0x0A, CHR 0x0B, CHR 0x0C, CHR 0x0D, CHR 0xA0])"

definition trim :: "string \<Rightarrow> string" where
  "trim s = rev (dropWhile is_space (rev (dropWhile is_space s)))"

text \<open>\<open>s.includes(sub)\<close>: \<open>sub\<close> occurs in \<open>s\<close> as a contiguous run.\<close>

definition str_includes :: "string \<Rightarrow> string \<Rightarrow> bool" where
  "str_includes s sub = sublist sub s"

text \<open>\<open>[...new Set(xs)]\<close>: duplicates dropped, the first occurrence of each element kept.\<close>

definition new_Set :: "'a list \<Rightarrow> 'a list" where
  "new_Set xs = foldl (\<lambda>acc x. if x \<in> set acc then acc else acc @ [x]) [] xs"

text \<open>The decimal numeral of a natural number, as template literals print it.\<close>

fun decimal :: "nat \<Rightarrow> string" where
  "decimal n =
     (if n < 10 then [char_of (48 + n)]
      else decimal (n div 10) @ [char_of (48 + n mod 10)])"


subsection \<open>Numbers\<close>

text \<open>The number of binary digits of a natural number.\<close>

fun bit_length :: "nat \<Rightarrow> nat" where
  "bit_length n = (if n = 0 then 0 else Suc (bit_length (n div 2)))"

declare bit_length.simps [simp del]

text \<open>
  For a positive \<open>x\<close>, the exponent \<open>k\<close> with \<open>2 ^ k \<le> x < 2 ^ (k + 1)\<close>: the difference of the
  bit lengths of numerator and denominator, or one less.
\<close>

definition floor_log2 :: "rat \<Rightarrow> int" where
  "floor_log2 x =
     (let (a, b) = quotient_of x;
          d = int (bit_length (nat a)) - int (bit_length (nat b))
      in if 2 powi d \<le> x then d else d - 1)"

text \<open>The nearest integer, a tie going to the even one.\<close>

definition round_half_even :: "rat \<Rightarrow> int" where
  "round_half_even y =
     (let f = \<lfloor>y\<rfloor>; r = y - of_int f
      in if r < 1 / 2 then f else if 1 / 2 < r then f + 1 else if even f then f else f + 1)"

text \<open>
  Rounding to binary64, round-to-nearest, ties to even: the value is scaled so that its
  integer part has 53 binary digits, rounded, and scaled back. Overflow and subnormal
  values (magnitudes beyond \<open>2 ^ 1024\<close> or below \<open>2 ^ -1022\<close>) are not modelled; no number of
  this program comes near them.
\<close>

definition to_double :: "rat \<Rightarrow> rat" where
  "to_double x =
     (if x = 0 then 0
      else (let e = floor_log2 \<bar>x\<bar> - 52;
                m = round_half_even (\<bar>x\<bar> / 2 powi e)
            in sgn x * (of_int m * 2 powi e)))"


section \<open>The Feedback model (models/Feedback.js)\<close>

datatype status = New | Read | Responded | Archived

datatype priority = Low | Medium | High | Urgent

fun status_name :: "status \<Rightarrow> string" where
  "status_name New = ''new''"
| "status_name Read = ''read''"
| "status_name Responded = ''responded''"
| "status_name Archived = ''archived''"

fun priority_name :: "priority \<Rightarrow> string" where
  "priority_name Low = ''low''"
| "priority_name Medium = ''medium''"
| "priority_name High = ''high''"
| "priority_name Urgent = ''urgent''"

text \<open>
  A stored document. \<open>rating\<close> is optional in the store: documents written before the
  field was added to the schema lack it (scripts/migrate-ratings.js fills it in), and the
  schema default is applied only when a document is constructed. A rating is an integer:
  the writers of this repository (the schema default and the migration) store 5, and a
  fractional rating is outside the model. Time stamps are milliseconds since the epoch.
\<close>

record feedback =
  fid :: nat
  name :: string
  email :: string
  contactNumber :: "string option"
  message :: string
  rating :: "int option"
  status :: status
  ipAddress :: "string option"
  userAgent :: "string option"
  isPublic :: bool
  priority :: priority
  tags :: "string list"
  createdAt :: int
  updatedAt :: int

subsection \<open>Pre-save middleware: auto-tagging\<close>

text \<open>
  The hook keeps a list \<open>autoTags\<close> and assigns \<open>this.priority\<close> as it goes; the pair
  (autoTags, priority) is threaded through the six \<open>if\<close> statements in source order.
  \<open>msg\<close> is the lowercased message.
\<close>

definition auto_tags :: "string \<Rightarrow> priority \<Rightarrow> string list \<times> priority" where
  "auto_tags msg p =
     (let st = ([], p);
          st = (if str_includes msg ''bug'' \<or> str_includes msg ''error'' \<or> str_includes msg ''issue''
                then (fst st @ [''bug-report''], High) else st);
          st = (if str_includes msg ''feature'' \<or> str_includes msg ''suggestion'' \<or> str_includes msg ''improve''
                then (fst st @ [''feature-request''], snd st) else st);
          st = (if str_includes msg ''app'' \<or> str_includes msg ''mobile''
                then (fst st @ [''mobile-app''], snd st) else st);
          st = (if str_includes msg ''device'' \<or> str_includes msg ''esp32'' \<or> str_includes msg ''hardware''
                then (fst st @ [''hardware''], snd st) else st);
          st = (if str_includes msg ''great'' \<or> str_includes msg ''awesome'' \<or> str_includes msg ''love''
                then (fst st @ [''positive''], snd st) else st);
          st = (if str_includes msg ''problem'' \<or> str_includes msg ''difficult'' \<or> str_includes msg ''hate''
                then (fst st @ [''negative''], High) else st)
      in st)"

text \<open>The setters of the \<open>tags\<close> path (\<open>lowercase: true, trim: true\<close>), run on assignment.\<close>

definition tag_setter :: "string \<Rightarrow> string" where
  "tag_setter t = trim (toLowerCase t)"

definition pre_save :: "bool \<Rightarrow> feedback \<Rightarrow> feedback" where
  "pre_save isNew d =
     (if isNew \<and> message d \<noteq> []
      then (let r = auto_tags (toLowerCase (message d)) (priority d)
            in d\<lparr>priority := snd r, tags := map tag_setter (new_Set (tags d @ fst r))\<rparr>)
      else d)"

subsection \<open>Schema validators, run by \<open>save()\<close> before the hooks\<close>

definition is_word_char :: "char \<Rightarrow> bool" where
  "is_word_char c = (c \<in> set (upper_letters @ lower_letters @ ''0123456789_''))"

fun split_on :: "char \<Rightarrow> string \<Rightarrow> string list" where
  "split_on sep [] = [[]]"
| "split_on sep (c # cs) =
     (if c = sep then [] # split_on sep cs
      else (case split_on sep cs of [] \<Rightarrow> [[c]] | w # ws \<Rightarrow> (c # w) # ws))"

text \<open>
  The \<open>match\<close> pattern of the email path, \<open>/^[\w-\.]+@([\w-]+\.)+[\w-]{2,4}$/\<close>: a non-empty
  local part of word characters, hyphens and dots; an at sign; then at least two
  dot-separated non-empty labels of word characters and hyphens, the last of 2 to 4
  characters.
\<close>

definition email_match :: "string \<Rightarrow> bool" where
  "email_match s =
     (let local = takeWhile (\<lambda>c. c \<noteq> CHR ''@'') s;
          rest = dropWhile (\<lambda>c. c \<noteq> CHR ''@'') s
      in local \<noteq> [] \<and>
         list_all (\<lambda>c. is_word_char c \<or> c = CHR ''-'' \<or> c = CHR ''.'') local \<and>
         (case rest of
            [] \<Rightarrow> False
          | _ # domain \<Rightarrow>
              (let labels = split_on CHR ''.'' domain
               in 2 \<le> length labels \<and>
                  list_all (\<lambda>l. l \<noteq> [] \<and> list_all (\<lambda>c. is_word_char c \<or> c = CHR ''-'') l) labels \<and>
                  2 \<le> length (last labels) \<and> length (last labels) \<le> 4)))"

text \<open>
  The validators of the schema on a constructed document: \<open>required\<close>, \<open>minlength\<close>,
  \<open>maxlength\<close>, \<open>match\<close>, \<open>min\<close>, \<open>max\<close>. The length validators of \<open>contactNumber\<close> and the
  range validators of \<open>rating\<close> run only when the path has a value.
\<close>

definition schema_valid :: "feedback \<Rightarrow> bool" where
  "schema_valid d =
     (name d \<noteq> [] \<and> 2 \<le> length (name d) \<and> length (name d) \<le> 100 \<and>
      email d \<noteq> [] \<and> email_match (email d) \<and>
      (case contactNumber d of None \<Rightarrow> True | Some c \<Rightarrow> 10 \<le> length c \<and> length c \<le> 20) \<and>
      message d \<noteq> [] \<and> 10 \<le> length (message d) \<and> length (message d) \<le> 1000 \<and>
      (case rating d of None \<Rightarrow> True | Some r \<Rightarrow> 1 \<le> r \<and> r \<le> 5))"


section \<open>Request validation (the Joi schema of routes/feedback.js)\<close>

datatype jsval =
    JString string
  | JNumber rat
  | JBool bool
  | JNull
  | JId nat
  | JIdHex nat
  | JDate int
  | JLocaleDate int
  | JFormattedDate int
  | JArray "jsval list"
  | JObject "(string \<times> jsval) list"

text \<open>
  \<open>JId\<close> is an ObjectId, \<open>JIdHex\<close> the hexadecimal string of one, and \<open>JDate\<close> a Date.
  \<open>JLocaleDate t\<close> is the string that
  \<open>toLocaleDateString()\<close> renders for the instant \<open>t\<close>, and \<open>JFormattedDate t\<close> the one
  that the en-US long format of the virtual \<open>formattedDate\<close> renders; both are kept
  symbolic. An object is the list of its own properties.
\<close>

type_synonym jsobject = "(string \<times> jsval) list"

datatype joi_code =
  AnyRequired | StringBase | StringEmpty | StringMin | StringMax | StringEmail | ObjectUnknown

datatype joi_rule = RuleMin nat | RuleMax nat | RuleEmail

record joi_key =
  label :: string
  rules :: "joi_rule list"
  required :: bool
  messages :: "(joi_code \<times> string) list"

text \<open>The schema object, key by key as the source declares it.\<close>

definition feedbackValidation :: "joi_key list" where
  "feedbackValidation =
     [\<lparr>label = ''name'', rules = [RuleMin 2, RuleMax 100], required = True,
       messages = [(StringEmpty, ''Name is required''),
                   (StringMin, ''Name must be at least 2 characters long''),
                   (StringMax, ''Name cannot exceed 100 characters'')]\<rparr>,
      \<lparr>label = ''email'', rules = [RuleEmail], required = True,
       messages = [(StringEmpty, ''Email is required''),
                   (StringEmail, ''Please provide a valid email address'')]\<rparr>,
      \<lparr>label = ''contactNumber'', rules = [RuleMin 10, RuleMax 20], required = True,
       messages = [(StringEmpty, ''Contact number is required''),
                   (StringMin, ''Contact number must be at least 10 digits''),
                   (StringMax, ''Contact number cannot exceed 20 characters'')]\<rparr>,
      \<lparr>label = ''message'', rules = [RuleMin 10, RuleMax 1000], required = True,
       messages = [(StringEmpty, ''Message is required''),
                   (StringMin, ''Message must be at least 10 characters long''),
                   (StringMax, ''Message cannot exceed 1000 characters'')]\<rparr>]"

fun rule_code :: "joi_rule \<Rightarrow> joi_code" where
  "rule_code (RuleMin n) = StringMin"
| "rule_code (RuleMax n) = StringMax"
| "rule_code RuleEmail = StringEmail"

text \<open>
  Joi's own email check is a library function that the repository does not contain; it
  is the parameter \<open>joiEmail\<close> of the validation.
\<close>

fun rule_ok :: "(string \<Rightarrow> bool) \<Rightarrow> joi_rule \<Rightarrow> string \<Rightarrow> bool" where
  "rule_ok joiEmail (RuleMin n) s = (n \<le> length s)"
| "rule_ok joiEmail (RuleMax n) s = (length s \<le> n)"
| "rule_ok joiEmail RuleEmail s = joiEmail s"

definition quoted :: "string \<Rightarrow> string" where
  "quoted l = [CHR 0x22] @ l @ [CHR 0x22]"

fun rule_limit :: "joi_rule \<Rightarrow> nat" where
  "rule_limit (RuleMin n) = n"
| "rule_limit (RuleMax n) = n"
| "rule_limit RuleEmail = 0"

text \<open>Joi's message templates, used for the codes the schema gives no message for.\<close>

fun default_message :: "string \<Rightarrow> joi_code \<Rightarrow> nat \<Rightarrow> string" where
  "default_message l AnyRequired n = quoted l @ '' is required''"
| "default_message l StringBase n = quoted l @ '' must be a string''"
| "default_message l StringEmpty n = quoted l @ '' is not allowed to be empty''"
| "default_message l StringMin n =
     quoted l @ '' length must be at least '' @ decimal n @ '' characters long''"
| "default_message l StringMax n =
     quoted l @ '' length must be less than or equal to '' @ decimal n @ '' characters long''"
| "default_message l StringEmail n = quoted l @ '' must be a valid email''"
| "default_message l ObjectUnknown n = quoted l @ '' is not allowed''"

definition message_for :: "joi_key \<Rightarrow> joi_code \<Rightarrow> nat \<Rightarrow> string" where
  "message_for k c n =
     (case map_of (messages k) c of Some m \<Rightarrow> m | None \<Rightarrow> default_message (label k) c n)"

text \<open>
  The errors of one key: a missing required value, a value that is not a string, the
  empty string, and then every rule the string breaks, in the order of the rules.
\<close>

definition value_errors :: "(string \<Rightarrow> bool) \<Rightarrow> joi_key \<Rightarrow> jsval option \<Rightarrow> string list" where
  "value_errors joiEmail k v =
     (case v of
        None \<Rightarrow> (if required k then [message_for k AnyRequired 0] else [])
      | Some (JString s) \<Rightarrow>
          (if s = [] then [message_for k StringEmpty 0]
           else map (\<lambda>r. message_for k (rule_code r) (rule_limit r)) (filter (\<lambda>r. \<not> rule_ok joiEmail r s) (rules k)))
      | Some _ \<Rightarrow> [message_for k StringBase 0])"

text \<open>
  The errors of the whole object: the schema's keys in order, then the keys of the body
  that the schema does not know (Joi's default \<open>allowUnknown: false\<close>).
\<close>

definition object_errors :: "(string \<Rightarrow> bool) \<Rightarrow> joi_key list \<Rightarrow> jsobject \<Rightarrow> string list" where
  "object_errors joiEmail schema body =
     concat (map (\<lambda>k. value_errors joiEmail k (map_of body (label k))) schema) @
     map (\<lambda>p. default_message (fst p) ObjectUnknown 0)
         (filter (\<lambda>p. fst p \<notin> set (map label schema)) body)"

text \<open>
  \<open>schema.validate(value, prefs)\<close>: \<open>Inl\<close> holds \<open>error.details\<close> (the messages), \<open>Inr\<close>
  the validated value. With \<open>abortEarly\<close> the validation stops at the first error, so
  \<open>error.details\<close> has one entry; without it every error is reported.
\<close>

definition joi_validate :: "bool \<Rightarrow> (string \<Rightarrow> bool) \<Rightarrow> joi_key list \<Rightarrow> jsobject \<Rightarrow> string list + jsobject" where
  "joi_validate abortEarly joiEmail schema body =
     (case object_errors joiEmail schema body of
        [] \<Rightarrow> Inr body
      | e # es \<Rightarrow> Inl (if abortEarly then [e] else e # es))"


section \<open>The routes (routes/feedback.js)\<close>

record pagination =
  currentPage :: int
  totalPages :: "int option"
  totalItems :: nat
  itemsPerPage :: int
  hasNextPage :: bool
  hasPrevPage :: bool

record stats =
  total_st :: nat
  newCount :: nat
  read :: nat
  responded :: nat
  highPriority :: nat
  urgent :: nat
  averageRating :: rat
  satisfactionPercentage :: int
  highRatingCount :: nat

text \<open>
  The responses of the handlers. \<open>Created\<close> carries the \<open>data\<close> of the 201 answer (id,
  name, message, submittedAt, status); \<open>ValidationError\<close> the \<open>message\<close> and the \<open>details\<close>
  of the 400 answer. \<open>ServerError\<close> is the answer of every \<open>catch\<close> block.
\<close>

datatype response =
    Created nat string string int status
  | ValidationError string "string list"
  | DuplicateSubmission
  | ServerError
  | ListOk "jsobject list" pagination
  | RecentOk "jsobject list" nat
  | Unauthorized
  | NotFound
  | Deleted

fun http_status :: "response \<Rightarrow> nat" where
  "http_status (Created i n m t s) = 201"
| "http_status (ValidationError m ds) = 400"
| "http_status DuplicateSubmission = 429"
| "http_status ServerError = 500"
| "http_status (ListOk ds p) = 200"
| "http_status (RecentOk ds n) = 200"
| "http_status Unauthorized = 401"
| "http_status NotFound = 404"
| "http_status Deleted = 200"

subsection \<open>POST /api/feedback\<close>

text \<open>
  What a request brings besides its body: the instant of \<open>Date.now()\<close>, \<open>req.ip\<close>, the
  User-Agent header, and the ObjectId that the new document gets.
\<close>

record request_env =
  req_now :: int
  req_ip :: "string option"
  req_userAgent :: "string option"
  req_newId :: nat

text \<open>
  \<open>new Feedback(feedbackData)\<close>: the setters of the string paths (\<open>trim\<close>, \<open>lowercase\<close>) and
  the defaults of the schema. The time stamps are those that \<open>save()\<close> sets.
\<close>

definition new_Feedback :: "request_env \<Rightarrow> string \<Rightarrow> string \<Rightarrow> string \<Rightarrow> string \<Rightarrow> feedback" where
  "new_Feedback env n e c m =
     \<lparr>fid = req_newId env, name = trim n, email = trim (toLowerCase e),
      contactNumber = Some (trim c), message = trim m, rating = Some 5, status = New,
      ipAddress = req_ip env, userAgent = req_userAgent env, isPublic = True,
      priority = Medium, tags = [], createdAt = req_now env, updatedAt = req_now env\<rparr>"

text \<open>
  \<open>feedback.save()\<close>: the validators first (a failure is thrown, \<open>None\<close>), then the
  pre-save hook, then the insertion. The result is the saved document and the new
  collection.
\<close>

definition save :: "feedback \<Rightarrow> feedback list \<Rightarrow> (feedback \<times> feedback list) option" where
  "save d docs =
     (if schema_valid d
      then (let saved = pre_save True d in Some (saved, docs @ [saved]))
      else None)"

text \<open>
  The handler. \<open>validate\<close> is called with no preferences, so with Joi's default
  \<open>abortEarly: true\<close>. Every exception ends in the \<open>catch\<close> block. The rate limiter in
  front of the handler is middleware of another package and not part of the model, and
  the collection is taken to be reachable: the two instants that the handler reads
  (\<open>Date.now()\<close> and the time stamp of \<open>save()\<close>) are one, \<open>req_now\<close>.
\<close>

definition submit :: "(string \<Rightarrow> bool) \<Rightarrow> request_env \<Rightarrow> jsobject \<Rightarrow> feedback list \<Rightarrow> response \<times> feedback list" where
  "submit joiEmail env body docs =
     (case joi_validate True joiEmail feedbackValidation body of
        Inl details \<Rightarrow>
          (case details of
             [] \<Rightarrow> (ServerError, docs)
           | first # _ \<Rightarrow> (ValidationError first details, docs))
      | Inr v \<Rightarrow>
          (case (map_of v ''name'', map_of v ''email'', map_of v ''contactNumber'', map_of v ''message'') of
             (Some (JString n), Some (JString e), Some (JString c), Some (JString m)) \<Rightarrow>
               (let oneHourAgo = req_now env - 60 * 60 * 1000;
                    existingFeedback =
                      find (\<lambda>d. email d = toLowerCase e \<and> oneHourAgo \<le> createdAt d) docs
                in if existingFeedback \<noteq> None then (DuplicateSubmission, docs)
                   else (case save (new_Feedback env n e c m) docs of
                           None \<Rightarrow> (ServerError, docs)
                         | Some (fb, docs') \<Rightarrow>
                             (Created (fid fb) (name fb) (message fb) (createdAt fb) (status fb), docs')))
           | _ \<Rightarrow> (ServerError, docs)))"

subsection \<open>Queries, projections and virtuals\<close>

text \<open>
  The stored paths of a document, as the object that a query returns; \<open>__v\<close> is the
  version key that Mongoose adds.
\<close>

definition doc_paths :: "feedback \<Rightarrow> jsobject" where
  "doc_paths d =
     [(''_id'', JId (fid d)), (''name'', JString (name d)), (''email'', JString (email d))] @
     (case contactNumber d of None \<Rightarrow> [] | Some c \<Rightarrow> [(''contactNumber'', JString c)]) @
     [(''message'', JString (message d))] @
     (case rating d of None \<Rightarrow> [] | Some r \<Rightarrow> [(''rating'', JNumber (of_int r))]) @
     [(''status'', JString (status_name (status d)))] @
     (case ipAddress d of None \<Rightarrow> [] | Some a \<Rightarrow> [(''ipAddress'', JString a)]) @
     (case userAgent d of None \<Rightarrow> [] | Some a \<Rightarrow> [(''userAgent'', JString a)]) @
     [(''isPublic'', JBool (isPublic d)),
      (''priority'', JString (priority_name (priority d))),
      (''tags'', JArray (map JString (tags d))),
      (''createdAt'', JDate (createdAt d)),
      (''updatedAt'', JDate (updatedAt d)),
      (''__v'', JNumber 0)]"

text \<open>
  \<open>Query.select\<close> with a string: the words with a leading minus are excluded paths, the
  others included paths. With included paths the result has those and \<open>_id\<close>, unless
  \<open>-_id\<close> is given; with none it has every path that is not excluded.
\<close>

definition select :: "string \<Rightarrow> jsobject \<Rightarrow> jsobject" where
  "select spec obj =
     (let ws = filter (\<lambda>w. w \<noteq> []) (split_on CHR '' '' spec);
          excluded = map tl (filter (\<lambda>w. hd w = CHR ''-'') ws);
          included = filter (\<lambda>w. hd w \<noteq> CHR ''-'') ws
      in if included = [] then filter (\<lambda>p. fst p \<notin> set excluded) obj
         else filter (\<lambda>p. fst p \<in> set included \<or> (fst p = ''_id'' \<and> ''_id'' \<notin> set excluded)) obj)"

text \<open>The virtual \<open>timeAgo\<close>; \<open>Math.floor\<close> of a quotient is \<open>div\<close> on the integers.\<close>

definition timeAgo :: "int \<Rightarrow> int \<Rightarrow> jsval" where
  "timeAgo now created =
     (let diffMs = now - created;
          diffMins = diffMs div 60000;
          diffHours = diffMins div 60;
          diffDays = diffHours div 24
      in if diffMins < 1 then JString ''Just now''
         else if diffMins < 60
           then JString (decimal (nat diffMins) @ '' minute'' @ (if diffMins = 1 then [] else ''s'') @ '' ago'')
         else if diffHours < 24
           then JString (decimal (nat diffHours) @ '' hour'' @ (if diffHours = 1 then [] else ''s'') @ '' ago'')
         else if diffDays < 7
           then JString (decimal (nat diffDays) @ '' day'' @ (if diffDays = 1 then [] else ''s'') @ '' ago'')
         else JLocaleDate created)"

text \<open>
  \<open>toJSON\<close> with \<open>virtuals: true\<close>: the virtuals are computed and added after the stored
  paths. The two virtuals of the schema read \<open>createdAt\<close>; their getters throw when the
  projection has removed it (\<open>None\<close>). The virtual \<open>id\<close>, which Mongoose adds to every
  schema, is the hexadecimal string of \<open>_id\<close>, and \<open>null\<close> when the projection has removed
  \<open>_id\<close>.
\<close>

definition toJSON :: "int \<Rightarrow> jsobject \<Rightarrow> jsobject option" where
  "toJSON now obj =
     (case map_of obj ''createdAt'' of
        Some (JDate t) \<Rightarrow>
          Some (obj @
                [(''formattedDate'', JFormattedDate t), (''timeAgo'', timeAgo now t),
                 (''id'', (case map_of obj ''_id'' of Some (JId i) \<Rightarrow> JIdHex i | _ \<Rightarrow> JNull))])
      | _ \<Rightarrow> None)"

text \<open>The filter of a \<open>find\<close> or \<open>countDocuments\<close>, as the list route builds it.\<close>

datatype 'a cond = Eq 'a | Ne 'a

record mquery =
  m_isPublic :: "bool option"
  m_status :: "string cond option"
  m_priority :: "string option"

definition matches :: "mquery \<Rightarrow> feedback \<Rightarrow> bool" where
  "matches q d =
     ((case m_isPublic q of None \<Rightarrow> True | Some b \<Rightarrow> isPublic d = b) \<and>
      (case m_status q of
         None \<Rightarrow> True
       | Some (Eq s) \<Rightarrow> status_name (status d) = s
       | Some (Ne s) \<Rightarrow> status_name (status d) \<noteq> s) \<and>
      (case m_priority q of None \<Rightarrow> True | Some p \<Rightarrow> priority_name (priority d) = p))"

text \<open>
  \<open>.sort({ createdAt: -1 })\<close>, with documents of one instant kept in the order of the
  collection, and \<open>.limit(n)\<close>: zero is no limit, a negative \<open>n\<close> its absolute value.
\<close>

definition sort_createdAt_desc :: "feedback list \<Rightarrow> feedback list" where
  "sort_createdAt_desc docs = sort_key (\<lambda>d. - createdAt d) docs"

definition cursor_limit :: "int \<Rightarrow> 'a list \<Rightarrow> 'a list" where
  "cursor_limit n xs = (if n = 0 then xs else take (nat \<bar>n\<bar>) xs)"

subsection \<open>GET /api/feedback\<close>

text \<open>
  The query string after the defaults of the destructuring; \<open>q_page\<close> and \<open>q_limit\<close> are
  the integers that \<open>parseInt\<close> returns (a page or limit that is not a number is outside
  the model). A parameter is truthy when it is a non-empty string.
\<close>

record list_query =
  q_page :: int
  q_limit :: int
  q_status :: "string option"
  q_priority :: "string option"
  q_publicOnly :: string

definition build_query :: "list_query \<Rightarrow> mquery" where
  "build_query q =
     (let query = \<lparr>m_isPublic = None, m_status = None, m_priority = None\<rparr>;
          query = (if q_publicOnly q = ''true''
                   then query\<lparr>m_isPublic := Some True, m_status := Some (Ne ''archived'')\<rparr>
                   else query);
          query = (case q_status q of
                     None \<Rightarrow> query
                   | Some s \<Rightarrow> if s \<noteq> [] then query\<lparr>m_status := Some (Eq s)\<rparr> else query);
          query = (case q_priority q of
                     None \<Rightarrow> query
                   | Some p \<Rightarrow> if p \<noteq> [] then query\<lparr>m_priority := Some p\<rparr> else query)
      in query)"

text \<open>The server refuses a negative \<open>skip\<close>; the error ends in the \<open>catch\<close> block.\<close>

definition list_route :: "int \<Rightarrow> list_query \<Rightarrow> feedback list \<Rightarrow> response" where
  "list_route now q docs =
     (let pageNum = q_page q;
          limitNum = q_limit q;
          skip = (pageNum - 1) * limitNum;
          query = build_query q
      in if skip < 0 then ServerError
         else
           (let found = cursor_limit limitNum (drop (nat skip) (sort_createdAt_desc (filter (matches query) docs)));
                fields = (if q_publicOnly q = ''true''
                          then ''name message createdAt formattedDate timeAgo tags priority -_id''
                          else ''-ipAddress -userAgent'')
            in case those (map (\<lambda>d. toJSON now (select fields (doc_paths d))) found) of
                 None \<Rightarrow> ServerError
               | Some feedbacks \<Rightarrow>
                   (let total = length (filter (matches query) docs);
                        pages = (if limitNum = 0 then None
                                 else Some \<lceil>(of_nat total :: rat) / of_int limitNum\<rceil>)
                    in ListOk feedbacks
                         \<lparr>currentPage = pageNum, totalPages = pages, totalItems = total,
                          itemsPerPage = limitNum,
                          hasNextPage = (case pages of None \<Rightarrow> 0 < total | Some t \<Rightarrow> pageNum < t),
                          hasPrevPage = (1 < pageNum)\<rparr>)))"

subsection \<open>GET /api/feedback/recent\<close>

definition getPublicFeedback :: "int \<Rightarrow> feedback list \<Rightarrow> jsobject list" where
  "getPublicFeedback limit docs =
     map (\<lambda>d. select ''name message createdAt formattedDate timeAgo tags priority'' (doc_paths d))
       (cursor_limit limit
         (sort_createdAt_desc (filter (\<lambda>d. isPublic d \<and> status_name (status d) \<noteq> ''archived'') docs)))"

definition recent_route :: "int \<Rightarrow> int \<Rightarrow> feedback list \<Rightarrow> response" where
  "recent_route now limit docs =
     (case those (map (toJSON now) (getPublicFeedback limit docs)) of
        None \<Rightarrow> ServerError
      | Some feedbacks \<Rightarrow> RecentOk feedbacks (length feedbacks))"

subsection \<open>Statistics (the static \<open>getStats\<close> of the model)\<close>

text \<open>
  The \<open>$group\<close> stage with \<open>_id: null\<close>: no group for an empty collection, else one group
  with the average of the ratings that are present (\<open>null\<close>, here \<open>None\<close>, when no document
  has one) and the number of documents. The average is the quotient of the exact integer
  sum by the count, as a double.
\<close>

definition rating_group :: "feedback list \<Rightarrow> (rat option \<times> nat) list" where
  "rating_group docs =
     (if docs = [] then []
      else [(let rs = List.map_filter rating docs
             in if rs = [] then None
                else Some (to_double (of_int (sum_list rs) / of_nat (length rs))),
             length docs)])"

text \<open>
  \<open>x.toFixed(1)\<close>, as the value of the decimal string: the multiple of one tenth nearest
  to the double \<open>x\<close>, the larger one at a tie; and \<open>Math.round(x)\<close>, the integer nearest to
  the double \<open>x\<close>, the larger one at a tie. Both are exact on the double they are given.
\<close>

definition toFixed1 :: "rat \<Rightarrow> rat" where
  "toFixed1 x =
     (if x < 0 then - (of_int \<lfloor>- x * 10 + 1 / 2\<rfloor> / 10) else of_int \<lfloor>x * 10 + 1 / 2\<rfloor> / 10)"

definition Math_round :: "rat \<Rightarrow> int" where
  "Math_round x = \<lfloor>x + 1 / 2\<rfloor>"

text \<open>
  The counts are integers far below \<open>2 ^ 53\<close> and so exact doubles. \<open>Number(s)\<close> of a decimal
  string, the literal \<open>4.8\<close>, the quotient and the product are each rounded to a double.
\<close>

definition getStats :: "feedback list \<Rightarrow> stats" where
  "getStats docs =
     (let total = length docs;
          ratingStats = rating_group docs;
          avgRating = (case ratingStats of
                         [] \<Rightarrow> to_double (48 / 10)
                       | g # _ \<Rightarrow>
                           (case fst g of
                              None \<Rightarrow> to_double (48 / 10)
                            | Some a \<Rightarrow> if a = 0 then to_double (48 / 10) else to_double (toFixed1 a)));
          highRating = length (filter (\<lambda>d. case rating d of None \<Rightarrow> False | Some r \<Rightarrow> 4 \<le> r) docs);
          satisfaction = (if 0 < total
                          then Math_round (to_double (to_double (of_nat highRating / of_nat total) * 100))
                          else 97)
      in \<lparr>total_st = total,
          newCount = length (filter (\<lambda>d. status d = New) docs),
          read = length (filter (\<lambda>d. status d = Read) docs),
          responded = length (filter (\<lambda>d. status d = Responded) docs),
          highPriority = length (filter (\<lambda>d. priority d = High) docs),
          urgent = length (filter (\<lambda>d. priority d = Urgent) docs),
          averageRating = avgRating,
          satisfactionPercentage = satisfaction,
          highRatingCount = highRating\<rparr>)"

subsection \<open>DELETE /api/feedback/:id\<close>

text \<open>
  \<open>ADMIN_KEY\<close> is \<open>process.env.ADMIN_KEY\<close> and \<open>headers\<close> is \<open>req.headers\<close>; a missing entry
  is \<open>undefined\<close>, here \<open>None\<close>. \<open>oid\<close> is \<open>None\<close> when the path parameter does not cast to
  an ObjectId: \<open>findByIdAndDelete\<close> throws and the \<open>catch\<close> block answers.
\<close>

definition delete_route :: "string option \<Rightarrow> (string \<Rightarrow> string option) \<Rightarrow> nat option \<Rightarrow> feedback list \<Rightarrow> response \<times> feedback list" where
  "delete_route ADMIN_KEY headers oid docs =
     (let adminKey = headers ''adminKey''
      in if adminKey \<noteq> ADMIN_KEY then (Unauthorized, docs)
         else (case oid of
                 None \<Rightarrow> (ServerError, docs)
               | Some i \<Rightarrow>
                   (case find (\<lambda>d. fid d = i) docs of
                      None \<Rightarrow> (NotFound, docs)
                    | Some d \<Rightarrow> (Deleted, remove1 d docs))))"


section \<open>Example data\<close>

definition ex_feedback :: feedback where
  "ex_feedback =
     \<lparr>fid = 1, name = ''Alice'', email = ''alice@example.com'',
      contactNumber = Some ''0123456789'', message = ''I LOVE it but found a Bug'',
      rating = Some 5, status = New, ipAddress = None, userAgent = None, isPublic = True,
      priority = Medium, tags = [], createdAt = 1000, updatedAt = 1000\<rparr>"

definition ex_urgent :: feedback where
  "ex_urgent = ex_feedback\<lparr>priority := Urgent, message := ''There is an error on the page''\<rparr>"

definition ex_ratings :: "feedback list" where
  "ex_ratings = map (\<lambda>r. ex_feedback\<lparr>rating := Some r\<rparr>) [5, 5, 4, 3, 2]"

definition ex_env :: request_env where
  "ex_env = \<lparr>req_now = 2000, req_ip = Some ''203.0.113.7'', req_userAgent = None, req_newId = 2\<rparr>"

definition ex_body :: jsobject where
  "ex_body =
     [(''name'', JString ''Alice''), (''email'', JString ''Alice@Example.com''),
      (''contactNumber'', JString ''0123456789''),
      (''message'', JString ''I LOVE it but found a Bug'')]"

definition ex_body_short_name :: jsobject where
  "ex_body_short_name =
     [(''name'', JString ''A''), (''email'', JString ''Alice@Example.com''),
      (''contactNumber'', JString ''0123456789''),
      (''message'', JString ''I LOVE it but found a Bug'')]"

definition ex_body_no_contact :: jsobject where
  "ex_body_no_contact =
     [(''name'', JString ''Alice''), (''email'', JString ''Alice@Example.com''),
      (''message'', JString ''I LOVE it but found a Bug'')]"

definition ex_body_violations :: jsobject where
  "ex_body_violations =
     [(''name'', JString ''A''), (''email'', JString ''alice@example.com''),
      (''contactNumber'', JString ''12345''), (''message'', JString ''too short'')]"

definition ex_body_plus :: jsobject where
  "ex_body_plus =
     [(''name'', JString ''Alice''), (''email'', JString ''a+b@example.com''),
      (''contactNumber'', JString ''0123456789''),
      (''message'', JString ''I LOVE it but found a Bug'')]"

definition ex_unrated :: feedback where
  "ex_unrated = ex_feedback\<lparr>rating := None\<rparr>"

text \<open>Twenty ratings with the mean 4.35, and forty of which 23 are high (57.5 percent).\<close>

definition ex_tie_ratings :: "int list" where
  "ex_tie_ratings = replicate 13 5 @ replicate 5 4 @ replicate 2 1"

definition ex_tie_store :: "feedback list" where
  "ex_tie_store = map (\<lambda>r. ex_feedback\<lparr>rating := Some r\<rparr>) ex_tie_ratings"

definition ex_split_ratings :: "int list" where
  "ex_split_ratings = replicate 23 5 @ replicate 17 3"

definition ex_split_store :: "feedback list" where
  "ex_split_store = map (\<lambda>r. ex_feedback\<lparr>rating := Some r\<rparr>) ex_split_ratings"

definition ex_archived :: feedback where
  "ex_archived = ex_feedback\<lparr>status := Archived\<rparr>"

definition ex_query_archived :: list_query where
  "ex_query_archived =
     \<lparr>q_page = 1, q_limit = 10, q_status = Some ''archived'', q_priority = None, q_publicOnly = ''true''\<rparr>"

definition ex_query_public :: list_query where
  "ex_query_public =
     \<lparr>q_page = 1, q_limit = 10, q_status = None, q_priority = None, q_publicOnly = ''true''\<rparr>"



section \<open>Properties\<close>

subsection \<open>Strings and sets\<close>

lemma new_Set_foldl_set:
  "set (foldl (\<lambda>acc x. if x \<in> set acc then acc else acc @ [x]) a xs) = set a \<union> set xs"
  by (induction xs arbitrary: a) auto

lemma set_new_Set: "set (new_Set xs) = set xs"
  by (simp add: new_Set_def new_Set_foldl_set)




lemmas string_eval = toLowerCase_def lower_char_def upper_letters_def lower_letters_def
  trim_def is_space_def

lemma tag_setter_bug_report: "tag_setter ''bug-report'' = ''bug-report''"
  by (simp add: tag_setter_def string_eval)

lemma tag_setter_positive: "tag_setter ''positive'' = ''positive''"
  by (simp add: tag_setter_def string_eval)

lemma sublist_nonempty: "sublist (x # xs) ys \<Longrightarrow> ys \<noteq> []"
  by auto

lemma auto_tags_bug:
  assumes "str_includes msg ''bug'' \<or> str_includes msg ''error'' \<or> str_includes msg ''issue''"
  shows "''bug-report'' \<in> set (fst (auto_tags msg p)) \<and> snd (auto_tags msg p) = High"
  using assms by (auto simp: auto_tags_def Let_def)

lemma auto_tags_positive:
  assumes "str_includes msg ''great'' \<or> str_includes msg ''awesome'' \<or> str_includes msg ''love''"
  shows "''positive'' \<in> set (fst (auto_tags msg p))"
  using assms by (auto simp: auto_tags_def Let_def)

lemma auto_tags_negative:
  assumes "str_includes msg ''problem'' \<or> str_includes msg ''difficult'' \<or> str_includes msg ''hate''"
  shows "snd (auto_tags msg p) = High"
  using assms by (auto simp: auto_tags_def Let_def)

lemma auto_tags_no_escalation:
  assumes "\<not> (str_includes msg ''bug'' \<or> str_includes msg ''error'' \<or> str_includes msg ''issue'')"
      and "\<not> (str_includes msg ''problem'' \<or> str_includes msg ''difficult'' \<or> str_includes msg ''hate'')"
  shows "snd (auto_tags msg p) = p"
  using assms by (auto simp: auto_tags_def Let_def)

lemma pre_save_tags:
  assumes "message d \<noteq> []" and "t \<in> set (fst (auto_tags (toLowerCase (message d)) (priority d)))"
  shows "tag_setter t \<in> set (tags (pre_save True d))"
  using assms by (simp add: pre_save_def Let_def set_new_Set)

lemma pre_save_priority:
  assumes "message d \<noteq> []"
  shows "priority (pre_save True d) = snd (auto_tags (toLowerCase (message d)) (priority d))"
  using assms by (simp add: pre_save_def Let_def)

lemma toLowerCase_nonempty: "sublist (x # xs) (toLowerCase m) \<Longrightarrow> m \<noteq> []"
  by (auto simp: toLowerCase_def)

lemma ex_feedback_lower: "toLowerCase (message ex_feedback) = ''i love it but found a bug''"
  by (simp add: ex_feedback_def string_eval)

lemma ex_urgent_lower: "toLowerCase (message ex_urgent) = ''there is an error on the page''"
  by (simp add: ex_urgent_def ex_feedback_def string_eval)

subsection \<open>Rounding to doubles\<close>

lemma bit_length_bounds:
  "0 < n \<Longrightarrow> 2 ^ (bit_length n - 1) \<le> n \<and> n < 2 ^ bit_length n"
proof (induction n rule: bit_length.induct)
  case (1 n)
  show ?case
  proof (cases "n div 2 = 0")
    case True
    with "1.prems" have "n = 1" by auto
    then show ?thesis by (simp add: bit_length.simps)
  next
    case False
    then have pos: "0 < n div 2" by simp
    from "1.IH" [OF _ pos] "1.prems"
    have ih: "2 ^ (bit_length (n div 2) - 1) \<le> n div 2" "n div 2 < 2 ^ bit_length (n div 2)"
      by auto
    have bl: "bit_length n = Suc (bit_length (n div 2))"
      using "1.prems" by (subst bit_length.simps) simp
    have g: "0 < bit_length (n div 2)"
      using pos by (subst bit_length.simps) simp
    then obtain k where k: "bit_length (n div 2) = Suc k"
      by (cases "bit_length (n div 2)") auto
    from ih k have "2 * 2 ^ k \<le> 2 * (n div 2)" by simp
    also have "\<dots> \<le> n" by simp
    finally have lo: "2 ^ (bit_length n - 1) \<le> n" by (simp add: bl k)
    from ih(2) have "n div 2 + 1 \<le> 2 ^ bit_length (n div 2)" by simp
    then have "2 * (n div 2) + 2 \<le> 2 * 2 ^ bit_length (n div 2)" by simp
    moreover have "n < 2 * (n div 2) + 2" by presburger
    ultimately have hi: "n < 2 ^ bit_length n" by (simp add: bl)
    from lo hi show ?thesis ..
  qed
qed

lemma bit_length_pos: "0 < n \<Longrightarrow> 0 < bit_length n"
  by (subst bit_length.simps) simp

lemma floor_log2_bounds:
  assumes "0 < x"
  shows "2 powi floor_log2 x \<le> x \<and> x < 2 powi (floor_log2 x + 1)"
proof -
  obtain a b where q: "quotient_of x = (a, b)" by (cases "quotient_of x")
  then have b: "0 < b" by (rule quotient_of_denom_pos)
  from q have x: "x = of_int a / of_int b" by (rule quotient_of_div)
  with assms b have a: "0 < a" by (simp add: zero_less_divide_iff)
  define la where "la = bit_length (nat a)"
  define lb where "lb = bit_length (nat b)"
  define d where "d = int la - int lb"
  have la: "2 ^ (la - 1) \<le> nat a" "nat a < 2 ^ la" and lap: "0 < la"
    using bit_length_bounds [of "nat a"] bit_length_pos [of "nat a"] a by (auto simp: la_def)
  have lb: "2 ^ (lb - 1) \<le> nat b" "nat b < 2 ^ lb" and lbp: "0 < lb"
    using bit_length_bounds [of "nat b"] bit_length_pos [of "nat b"] b by (auto simp: lb_def)
  have ra: "(2::rat) ^ (la - 1) \<le> of_int a" "of_int a < (2::rat) ^ la"
  proof -
    from la(1) have "int (2 ^ (la - 1)) \<le> a" using a by linarith
    then have "(of_int (int (2 ^ (la - 1))) :: rat) \<le> of_int a" by (simp only: of_int_le_iff)
    then show "(2::rat) ^ (la - 1) \<le> of_int a" by simp
    from la(2) have "a < int (2 ^ la)" using a by linarith
    then have "(of_int a :: rat) < of_int (int (2 ^ la))" by (simp only: of_int_less_iff)
    then show "of_int a < (2::rat) ^ la" by simp
  qed
  have rb: "(2::rat) ^ (lb - 1) \<le> of_int b" "of_int b < (2::rat) ^ lb"
  proof -
    from lb(1) have "int (2 ^ (lb - 1)) \<le> b" using b by linarith
    then have "(of_int (int (2 ^ (lb - 1))) :: rat) \<le> of_int b" by (simp only: of_int_le_iff)
    then show "(2::rat) ^ (lb - 1) \<le> of_int b" by simp
    from lb(2) have "b < int (2 ^ lb)" using b by linarith
    then have "(of_int b :: rat) < of_int (int (2 ^ lb))" by (simp only: of_int_less_iff)
    then show "of_int b < (2::rat) ^ lb" by simp
  qed
  have bpos: "(0::rat) < of_int b" using b by simp
  have hi: "x < 2 powi (d + 1)"
  proof -
    have "x * 2 ^ (lb - 1) \<le> x * of_int b"
      using rb(1) assms by (intro mult_left_mono) auto
    also have "\<dots> = of_int a" using bpos by (simp add: x)
    also have "\<dots> < 2 ^ la" by (rule ra(2))
    finally have "x * 2 powi (int lb - 1) < 2 powi (int la)"
      using lbp by (simp add: power_int_def nat_diff_distrib')
    then have "x * 2 powi (int lb - 1) * 2 powi (1 - int lb) < 2 powi (int la) * 2 powi (1 - int lb)"
      by (intro mult_strict_right_mono) auto
    moreover have "(2::rat) powi (int lb - 1) * 2 powi (1 - int lb) = 2 powi ((int lb - 1) + (1 - int lb))"
      by (rule power_int_add [symmetric]) simp
    moreover have "(2::rat) powi (int la) * 2 powi (1 - int lb) = 2 powi (int la + (1 - int lb))"
      by (rule power_int_add [symmetric]) simp
    moreover have "int la + (1 - int lb) = d + 1" by (simp add: d_def)
    ultimately show ?thesis by (simp add: mult.assoc)
  qed
  have lo: "2 powi (d - 1) \<le> x"
  proof -
    have "(2::rat) ^ (la - 1) \<le> of_int a" by (rule ra(1))
    also have "\<dots> = x * of_int b" using bpos by (simp add: x)
    also have "\<dots> \<le> x * 2 ^ lb"
      using rb(2) assms by (intro mult_left_mono) auto
    finally have "2 powi (int la - 1) \<le> x * 2 powi (int lb)"
      using lap by (simp add: power_int_def nat_diff_distrib')
    then have i: "2 powi (int la - 1) * 2 powi (- int lb) \<le> x * (2 powi (int lb) * 2 powi (- int lb))"
      unfolding mult.assoc [symmetric] by (intro mult_right_mono) auto
    have "(2::rat) powi (int lb) * 2 powi (- int lb) = 2 powi (int lb + (- int lb))"
      by (rule power_int_add [symmetric]) simp
    then have r: "(2::rat) powi (int lb) * 2 powi (- int lb) = 1" by simp
    have "(2::rat) powi (int la - 1) * 2 powi (- int lb) = 2 powi ((int la - 1) + (- int lb))"
      by (rule power_int_add [symmetric]) simp
    also have "(int la - 1) + (- int lb) = d - 1" by (simp add: d_def)
    finally have l: "(2::rat) powi (int la - 1) * 2 powi (- int lb) = 2 powi (d - 1)" .
    from i show ?thesis unfolding r l by simp
  qed
  have fl: "floor_log2 x = (if 2 powi d \<le> x then d else d - 1)"
    by (simp add: floor_log2_def q Let_def d_def la_def lb_def)
  show ?thesis
  proof (cases "2 powi d \<le> x")
    case True
    with fl hi show ?thesis by simp
  next
    case False
    with fl lo show ?thesis by simp
  qed
qed

lemma floor_log2_unique:
  assumes "2 powi k \<le> x" and "x < 2 powi (k + 1)"
  shows "floor_log2 x = k"
proof -
  have pos: "0 < x"
    using assms(1) by (rule less_le_trans [rotated]) simp
  from floor_log2_bounds [OF pos]
  have b: "2 powi floor_log2 x \<le> x" "x < 2 powi (floor_log2 x + 1)" by auto
  have "(2::rat) powi k < 2 powi (floor_log2 x + 1)"
    using assms(1) b(2) by (rule le_less_trans)
  then have 1: "k < floor_log2 x + 1"
    by (metis not_le one_le_numeral power_int_increasing)
  have "(2::rat) powi floor_log2 x < 2 powi (k + 1)"
    using b(1) assms(2) by (rule le_less_trans)
  then have 2: "floor_log2 x < k + 1"
    by (metis not_le one_le_numeral power_int_increasing)
  from 1 2 show ?thesis by simp
qed

lemma round_half_even_error: "\<bar>of_int (round_half_even y) - y\<bar> \<le> 1 / 2"
proof -
  have f: "of_int \<lfloor>y\<rfloor> \<le> y" "y < of_int \<lfloor>y\<rfloor> + 1" by linarith+
  then show ?thesis
    by (auto simp: round_half_even_def Let_def abs_le_iff)
qed

lemma round_half_even_unique:
  assumes "\<bar>of_int m - y\<bar> < 1 / 2"
  shows "round_half_even y = m"
proof -
  have "\<bar>of_int (round_half_even y) - y\<bar> \<le> 1 / 2" by (rule round_half_even_error)
  with assms have "\<bar>(of_int (round_half_even y) :: rat) - of_int m\<bar> < 1" by linarith
  then have "\<bar>(of_int (round_half_even y - m) :: rat)\<bar> < of_int 1" by simp
  then have "\<bar>round_half_even y - m\<bar> < 1"
    by (simp only: of_int_abs [symmetric] of_int_less_iff)
  then show ?thesis by simp
qed

lemma to_double_error: "\<bar>to_double x - x\<bar> \<le> \<bar>x\<bar> / 2 ^ 53"
proof (cases "x = 0")
  case True
  then show ?thesis by (simp add: to_double_def)
next
  case False
  define a where "a = \<bar>x\<bar>"
  define e where "e = floor_log2 a - 52"
  define m where "m = round_half_even (a / 2 powi e)"
  have apos: "0 < a" using False by (simp add: a_def)
  have pe: "(0::rat) < 2 powi e" by simp
  have td: "to_double x = sgn x * (of_int m * 2 powi e)"
    using False by (simp add: to_double_def Let_def a_def e_def m_def)
  have xs: "x = sgn x * a" by (simp add: a_def mult_sgn_abs)
  have "to_double x - x = sgn x * (of_int m * 2 powi e - a)"
    by (subst xs, subst td) (simp add: algebra_simps)
  then have "\<bar>to_double x - x\<bar> = \<bar>of_int m * 2 powi e - a\<bar>"
    using False by (simp add: abs_mult abs_sgn_eq)
  also have "of_int m * 2 powi e - a = (of_int m - a / 2 powi e) * 2 powi e"
    using pe by (simp add: algebra_simps)
  also have "\<bar>\<dots>\<bar> = \<bar>of_int m - a / 2 powi e\<bar> * 2 powi e"
    using pe by (simp add: abs_mult)
  also have "\<dots> \<le> 1 / 2 * 2 powi e"
    unfolding m_def using pe by (intro mult_right_mono round_half_even_error) auto
  also have "\<dots> = 2 powi floor_log2 a / 2 ^ 53"
  proof -
    have "(2::rat) powi floor_log2 a = 2 powi (e + 52)" by (simp add: e_def)
    also have "\<dots> = 2 powi e * 2 powi 52" by (rule power_int_add) simp
    finally show ?thesis by simp
  qed
  also have "\<dots> \<le> a / 2 ^ 53"
    using floor_log2_bounds [OF apos] by (intro divide_right_mono) auto
  finally show ?thesis by (simp add: a_def)
qed

lemma to_double_eqI:
  assumes "0 < x" and "2 powi k \<le> x" and "x < 2 powi (k + 1)"
    and "\<bar>of_int m - x / 2 powi (k - 52)\<bar> < 1 / 2"
  shows "to_double x = of_int m * 2 powi (k - 52)"
proof -
  have fl: "floor_log2 \<bar>x\<bar> = k"
    using assms(1-3) by (intro floor_log2_unique) auto
  have "round_half_even (\<bar>x\<bar> / 2 powi (k - 52)) = m"
    using assms(1,4) by (intro round_half_even_unique) auto
  with fl assms(1) show ?thesis
    by (simp add: to_double_def Let_def)
qed

lemma to_double_pos: "0 < x \<Longrightarrow> 0 < to_double x"
proof -
  assume p: "0 < x"
  have "\<bar>to_double x - x\<bar> \<le> \<bar>x\<bar> / 2 ^ 53" by (rule to_double_error)
  then have "- (to_double x - x) \<le> \<bar>x\<bar> / 2 ^ 53" by (rule abs_le_D2)
  then have 1: "x - x / 2 ^ 53 \<le> to_double x" using p by simp
  have 2: "x / 2 ^ 53 < x" using p by (simp add: divide_less_eq)
  from 1 2 show ?thesis by linarith
qed

lemma to_double_eq_scaled:
  assumes "2 ^ 52 \<le> x * 2 ^ j" and "x * 2 ^ j < 2 ^ 53"
    and "\<bar>of_int m - x * 2 ^ j\<bar> < 1 / 2"
  shows "to_double x = of_int m / 2 ^ j"
proof -
  define k where "k = 52 - int j"
  have pj: "(0::rat) < 2 ^ j" by simp
  have pos: "0 < x"
  proof (rule ccontr)
    assume "\<not> 0 < x"
    then have "x * 2 ^ j \<le> 0" by (simp add: mult_le_0_iff)
    with assms(1) show False by simp
  qed
  have s: "(2::rat) powi (k - 52) = 1 / 2 ^ j"
    by (simp add: k_def power_int_minus inverse_eq_divide)
  have k1: "(2::rat) powi k = 2 ^ 52 / 2 ^ j"
  proof -
    have "(2::rat) powi k = 2 powi (52 + (- int j))" by (simp add: k_def)
    also have "\<dots> = 2 powi 52 * 2 powi (- int j)" by (rule power_int_add) simp
    finally show ?thesis by (simp add: power_int_minus inverse_eq_divide)
  qed
  have k2: "(2::rat) powi (k + 1) = 2 ^ 53 / 2 ^ j"
  proof -
    have "(2::rat) powi (k + 1) = 2 powi (53 + (- int j))" by (simp add: k_def)
    also have "\<dots> = 2 powi 53 * 2 powi (- int j)" by (rule power_int_add) simp
    finally show ?thesis by (simp add: power_int_minus inverse_eq_divide)
  qed
  have a: "2 powi k \<le> x"
    unfolding k1 using assms(1) pj by (simp add: divide_le_eq)
  have b: "x < 2 powi (k + 1)"
    unfolding k2 using assms(2) pj by (simp add: less_divide_eq)
  have fl: "floor_log2 \<bar>x\<bar> = k"
    using pos a b by (intro floor_log2_unique) auto
  have "round_half_even (\<bar>x\<bar> / 2 powi (k - 52)) = m"
    using pos assms(3) by (intro round_half_even_unique) (simp add: s)
  with fl pos show ?thesis
    by (simp add: to_double_def Let_def s)
qed

subsection \<open>Auto-tagging\<close>

text \<open>
  C3. A new record whose message contains "bug", "error" or "issue", in any letter case,
  is saved with the tag \<open>bug-report\<close> and the priority \<open>high\<close>; the rules are independent,
  so a message that also contains "great", "awesome" or "love" gets the tag \<open>positive\<close>
  as well. Containment in any letter case is containment in the lowercased message.
\<close>

theorem auto_tag_bug_report:
  assumes bug: "sublist ''bug'' (toLowerCase (message d)) \<or> sublist ''error'' (toLowerCase (message d))
                \<or> sublist ''issue'' (toLowerCase (message d))"
  shows "''bug-report'' \<in> set (tags (pre_save True d)) \<and> priority (pre_save True d) = High \<and>
         (sublist ''great'' (toLowerCase (message d)) \<or> sublist ''awesome'' (toLowerCase (message d))
            \<or> sublist ''love'' (toLowerCase (message d))
          \<longrightarrow> ''positive'' \<in> set (tags (pre_save True d)))"
proof -
  let ?m = "toLowerCase (message d)"
  from bug have ne: "message d \<noteq> []"
    by (auto dest: toLowerCase_nonempty)
  from bug have inc: "str_includes ?m ''bug'' \<or> str_includes ?m ''error'' \<or> str_includes ?m ''issue''"
    by (simp add: str_includes_def)
  have a: "''bug-report'' \<in> set (fst (auto_tags ?m (priority d)))"
    and b: "snd (auto_tags ?m (priority d)) = High"
    using auto_tags_bug [OF inc] by simp_all
  have "tag_setter ''bug-report'' \<in> set (tags (pre_save True d))"
    using pre_save_tags [OF ne a] .
  then have t1: "''bug-report'' \<in> set (tags (pre_save True d))"
    by (simp only: tag_setter_bug_report)
  have t2: "priority (pre_save True d) = High"
    using pre_save_priority [OF ne] b by simp
  have t3: "''positive'' \<in> set (tags (pre_save True d))"
    if pos: "sublist ''great'' ?m \<or> sublist ''awesome'' ?m \<or> sublist ''love'' ?m"
  proof -
    from pos have "str_includes ?m ''great'' \<or> str_includes ?m ''awesome'' \<or> str_includes ?m ''love''"
      by (simp add: str_includes_def)
    then have "''positive'' \<in> set (fst (auto_tags ?m (priority d)))"
      by (rule auto_tags_positive)
    then have "tag_setter ''positive'' \<in> set (tags (pre_save True d))"
      by (rule pre_save_tags [OF ne])
    then show ?thesis by (simp only: tag_setter_positive)
  qed
  from t1 t2 t3 show ?thesis by blast
qed

theorem auto_tag_bug_report_witness:
  "sublist ''bug'' (toLowerCase (message ex_feedback)) \<and>
   sublist ''love'' (toLowerCase (message ex_feedback)) \<and>
   ''bug-report'' \<in> set (tags (pre_save True ex_feedback)) \<and>
   ''positive'' \<in> set (tags (pre_save True ex_feedback)) \<and>
   priority (pre_save True ex_feedback) = High"
proof -
  have b: "sublist ''bug'' (toLowerCase (message ex_feedback))"
    unfolding ex_feedback_lower by (simp add: sublist_code)
  have l: "sublist ''love'' (toLowerCase (message ex_feedback))"
    unfolding ex_feedback_lower by (simp add: sublist_code)
  from b l auto_tag_bug_report [of ex_feedback] show ?thesis by blast
qed


text \<open>
  C6, as the claim states it, fails: a new record with the priority \<open>urgent\<close> whose message
  contains "error" leaves the hook with the priority \<open>high\<close>.
\<close>

theorem urgent_downgraded_counterexample:
  "priority ex_urgent = Urgent \<and> sublist ''error'' (toLowerCase (message ex_urgent)) \<and>
   priority (pre_save True ex_urgent) = High \<and> priority (pre_save True ex_urgent) \<noteq> Urgent"
proof -
  have p: "priority ex_urgent = Urgent"
    by (simp add: ex_urgent_def)
  have s: "sublist ''error'' (toLowerCase (message ex_urgent))"
    unfolding ex_urgent_lower by (simp add: sublist_code)
  have ne: "message ex_urgent \<noteq> []"
    by (simp add: ex_urgent_def)
  have "str_includes (toLowerCase (message ex_urgent)) ''bug'' \<or>
        str_includes (toLowerCase (message ex_urgent)) ''error'' \<or>
        str_includes (toLowerCase (message ex_urgent)) ''issue''"
    using s by (simp add: str_includes_def)
  then have "snd (auto_tags (toLowerCase (message ex_urgent)) (priority ex_urgent)) = High"
    using auto_tags_bug by blast
  then have h: "priority (pre_save True ex_urgent) = High"
    using pre_save_priority [OF ne] by simp
  from p s h show ?thesis by simp
qed

text \<open>
  C6, amended. The hook assigns the priority \<open>high\<close> to every new record whose message
  contains a bug keyword or a negative keyword, whatever the priority was before (an
  \<open>urgent\<close> record becomes \<open>high\<close>); a record whose message contains none of these
  keywords keeps its priority.
\<close>

theorem auto_tag_sets_high:
  "(list_ex (\<lambda>k. sublist k (toLowerCase (message d)))
      [''bug'', ''error'', ''issue'', ''problem'', ''difficult'', ''hate'']
    \<longrightarrow> priority (pre_save True d) = High) \<and>
   (\<not> list_ex (\<lambda>k. sublist k (toLowerCase (message d)))
      [''bug'', ''error'', ''issue'', ''problem'', ''difficult'', ''hate'']
    \<longrightarrow> priority (pre_save True d) = priority d)"
proof (intro conjI impI)
  let ?m = "toLowerCase (message d)"
  assume k: "list_ex (\<lambda>k. sublist k ?m) [''bug'', ''error'', ''issue'', ''problem'', ''difficult'', ''hate'']"
  then have ne: "message d \<noteq> []"
    by (auto dest: toLowerCase_nonempty)
  from k have "(str_includes ?m ''bug'' \<or> str_includes ?m ''error'' \<or> str_includes ?m ''issue'') \<or>
               (str_includes ?m ''problem'' \<or> str_includes ?m ''difficult'' \<or> str_includes ?m ''hate'')"
    by (auto simp: str_includes_def)
  then have "snd (auto_tags ?m (priority d)) = High"
    using auto_tags_bug auto_tags_negative by blast
  then show "priority (pre_save True d) = High"
    using pre_save_priority [OF ne] by simp
next
  let ?m = "toLowerCase (message d)"
  assume k: "\<not> list_ex (\<lambda>k. sublist k ?m) [''bug'', ''error'', ''issue'', ''problem'', ''difficult'', ''hate'']"
  show "priority (pre_save True d) = priority d"
  proof (cases "message d = []")
    case True
    then show ?thesis by (simp add: pre_save_def)
  next
    case False
    from k have "snd (auto_tags ?m (priority d)) = priority d"
      by (intro auto_tags_no_escalation) (auto simp: str_includes_def)
    then show ?thesis using pre_save_priority [OF False] by simp
  qed
qed

theorem auto_tag_sets_high_witness:
  "list_ex (\<lambda>k. sublist k (toLowerCase (message ex_urgent)))
      [''bug'', ''error'', ''issue'', ''problem'', ''difficult'', ''hate''] \<and>
   priority ex_urgent = Urgent \<and> priority (pre_save True ex_urgent) = High"
proof -
  have s: "list_ex (\<lambda>k. sublist k (toLowerCase (message ex_urgent)))
      [''bug'', ''error'', ''issue'', ''problem'', ''difficult'', ''hate'']"
    unfolding ex_urgent_lower by (simp add: sublist_code)
  have p: "priority ex_urgent = Urgent"
    by (simp add: ex_urgent_def)
  from s p auto_tag_sets_high [of ex_urgent] show ?thesis by blast
qed

subsection \<open>Submission\<close>

lemma value_errors_Nil_iff:
  assumes "required k"
  shows "value_errors J k v = [] \<longleftrightarrow>
         (\<exists>s. v = Some (JString s) \<and> s \<noteq> [] \<and> list_all (\<lambda>r. rule_ok J r s) (rules k))"
  using assms
  by (auto simp: value_errors_def filter_empty_conv list_all_iff split: option.splits jsval.splits)

lemma object_errors_Nil_iff:
  "object_errors J feedbackValidation body = [] \<longleftrightarrow>
     (\<exists>n e c m.
        map_of body ''name'' = Some (JString n) \<and> 2 \<le> length n \<and> length n \<le> 100 \<and>
        map_of body ''email'' = Some (JString e) \<and> e \<noteq> [] \<and> J e \<and>
        map_of body ''contactNumber'' = Some (JString c) \<and> 10 \<le> length c \<and> length c \<le> 20 \<and>
        map_of body ''message'' = Some (JString m) \<and> 10 \<le> length m \<and> length m \<le> 1000) \<and>
     list_all (\<lambda>p. fst p \<in> set [''name'', ''email'', ''contactNumber'', ''message'']) body"
  unfolding object_errors_def feedbackValidation_def
  by (simp add: value_errors_Nil_iff filter_empty_conv list_all_iff) (fastforce)


lemma pre_save_frame:
  "fid (pre_save b d) = fid d" "name (pre_save b d) = name d" "email (pre_save b d) = email d"
  "message (pre_save b d) = message d" "rating (pre_save b d) = rating d"
  "status (pre_save b d) = status d" "createdAt (pre_save b d) = createdAt d"
  by (simp_all add: pre_save_def Let_def)

lemma save_eq:
  "save d docs = (if schema_valid d then Some (pre_save True d, docs @ [pre_save True d]) else None)"
  by (simp add: save_def Let_def)

lemma find_Some_ex: "(\<exists>y. find P xs = Some y) = (\<exists>x\<in>set xs. P x)"
  by (induction xs) auto

lemma submit_invalid:
  "object_errors J feedbackValidation body = x # xs \<Longrightarrow>
   submit J env body docs = (ValidationError x [x], docs)"
  by (simp add: submit_def joi_validate_def)

lemma submit_valid:
  assumes "object_errors J feedbackValidation body = []"
    and "map_of body ''name'' = Some (JString n)" and "map_of body ''email'' = Some (JString e)"
    and "map_of body ''contactNumber'' = Some (JString c)" and "map_of body ''message'' = Some (JString m)"
  shows "submit J env body docs =
          (if \<exists>d\<in>set docs. email d = toLowerCase e \<and> req_now env - 60 * 60 * 1000 \<le> createdAt d
           then (DuplicateSubmission, docs)
           else if schema_valid (new_Feedback env n e c m)
             then (Created (req_newId env) (trim n) (trim m) (req_now env) New,
                   docs @ [pre_save True (new_Feedback env n e c m)])
             else (ServerError, docs))"
  using assms
  by (simp add: submit_def joi_validate_def Let_def find_Some_ex save_eq pre_save_frame new_Feedback_def)

lemma joi_validate_Inr_iff:
  "joi_validate b J feedbackValidation body = Inr v \<longleftrightarrow> v = body \<and> object_errors J feedbackValidation body = []"
  by (auto simp: joi_validate_def split: list.splits)

lemma ex_body_valid: "joi_validate True email_match feedbackValidation ex_body = Inr ex_body"
  by code_simp

lemma ex_body_fields:
  "map_of ex_body ''name'' = Some (JString ''Alice'')"
  "map_of ex_body ''email'' = Some (JString ''Alice@Example.com'')"
  "map_of ex_body ''contactNumber'' = Some (JString ''0123456789'')"
  "map_of ex_body ''message'' = Some (JString ''I LOVE it but found a Bug'')"
  by (simp_all add: ex_body_def)

lemma ex_email_lower: "toLowerCase ''Alice@Example.com'' = ''alice@example.com''"
  by (simp add: string_eval)

lemma ex_new_valid:
  "schema_valid (new_Feedback ex_env ''Alice'' ''Alice@Example.com'' ''0123456789'' ''I LOVE it but found a Bug'')"
  by code_simp

lemma submit_Created_cases:
  assumes "submit J env body docs = (Created i n' m' t s, docs')"
  obtains n e c m where
    "object_errors J feedbackValidation body = []"
    "map_of body ''name'' = Some (JString n)" "map_of body ''email'' = Some (JString e)"
    "map_of body ''contactNumber'' = Some (JString c)" "map_of body ''message'' = Some (JString m)"
    "10 \<le> length c" "length c \<le> 20"
    "\<not> (\<exists>d\<in>set docs. email d = toLowerCase e \<and> req_now env - 60 * 60 * 1000 \<le> createdAt d)"
    "schema_valid (new_Feedback env n e c m)"
    "docs' = docs @ [pre_save True (new_Feedback env n e c m)]"
    "i = req_newId env"
proof (cases "object_errors J feedbackValidation body")
  case (Cons x xs)
  from submit_invalid [OF Cons, of env docs] assms show ?thesis by simp
next
  case Nil
  then obtain n e c m where
    f: "map_of body ''name'' = Some (JString n)" "map_of body ''email'' = Some (JString e)"
       "map_of body ''contactNumber'' = Some (JString c)" "map_of body ''message'' = Some (JString m)"
    and l: "10 \<le> length c" "length c \<le> 20"
    unfolding object_errors_Nil_iff by blast
  from submit_valid [OF Nil f, of env docs] assms
  have "\<not> (\<exists>d\<in>set docs. email d = toLowerCase e \<and> req_now env - 60 * 60 * 1000 \<le> createdAt d)"
    and "schema_valid (new_Feedback env n e c m)"
    and "docs' = docs @ [pre_save True (new_Feedback env n e c m)]" and "i = req_newId env"
    by (auto split: if_splits)
  with Nil f l show ?thesis by (rule that)
qed


lemma ex_submit_created:
  "submit email_match ex_env ex_body [] =
     (Created 2 ''Alice'' ''I LOVE it but found a Bug'' 2000 New,
      [pre_save True (new_Feedback ex_env ''Alice'' ''Alice@Example.com'' ''0123456789'' ''I LOVE it but found a Bug'')])"
proof -
  have "object_errors email_match feedbackValidation ex_body = []"
    using ex_body_valid by (simp add: joi_validate_Inr_iff)
  from submit_valid [OF this ex_body_fields, of ex_env "[]"] ex_new_valid
  show ?thesis by (simp add: ex_env_def string_eval)
qed

lemma contactNumber_missing_errors:
  assumes "map_of body ''contactNumber'' = None"
  shows "object_errors J feedbackValidation body \<noteq> []"
  using assms unfolding object_errors_Nil_iff by simp

lemma submit_details_singleton:
  assumes "submit J env body docs = (ValidationError msg ds, docs')"
  shows "ds = [msg] \<and> docs' = docs"
proof (cases "object_errors J feedbackValidation body")
  case (Cons x xs)
  from submit_invalid [OF Cons, of env docs] assms show ?thesis by simp
next
  case Nil
  then obtain n e c m where
    f: "map_of body ''name'' = Some (JString n)" "map_of body ''email'' = Some (JString e)"
       "map_of body ''contactNumber'' = Some (JString c)" "map_of body ''message'' = Some (JString m)"
    unfolding object_errors_Nil_iff by blast
  from submit_valid [OF Nil f, of env docs] assms show ?thesis
    by (auto split: if_splits)
qed

lemma ex_violations_all:
  "object_errors joiEmail feedbackValidation ex_body_violations =
     [''Name must be at least 2 characters long''] @
     (if joiEmail ''alice@example.com'' then [] else [''Please provide a valid email address'']) @
     [''Contact number must be at least 10 digits'',
      ''Message must be at least 10 characters long'']"
  by (simp add: object_errors_def feedbackValidation_def ex_body_violations_def value_errors_def message_for_def)

lemma submit_duplicate_rejected:
  assumes "joi_validate True joiEmail feedbackValidation body = Inr v"
    and "map_of body ''email'' = Some (JString e)"
    and "\<exists>d\<in>set docs. email d = toLowerCase e \<and> req_now env - 60 * 60 * 1000 \<le> createdAt d"
  shows "submit joiEmail env body docs = (DuplicateSubmission, docs)"
proof -
  from assms(1) have ok: "object_errors joiEmail feedbackValidation body = []"
    by (simp add: joi_validate_Inr_iff)
  then obtain n e' c m where
    f: "map_of body ''name'' = Some (JString n)" "map_of body ''email'' = Some (JString e')"
       "map_of body ''contactNumber'' = Some (JString c)" "map_of body ''message'' = Some (JString m)"
    unfolding object_errors_Nil_iff by blast
  from f(2) assms(2) have "e' = e" by simp
  with submit_valid [OF ok f, of env docs] assms(3) show ?thesis by simp
qed

lemma ex_body_plus_fields:
  "map_of ex_body_plus ''name'' = Some (JString ''Alice'')"
  "map_of ex_body_plus ''email'' = Some (JString ''a+b@example.com'')"
  "map_of ex_body_plus ''contactNumber'' = Some (JString ''0123456789'')"
  "map_of ex_body_plus ''message'' = Some (JString ''I LOVE it but found a Bug'')"
  by (simp_all add: ex_body_plus_def)

lemma ex_body_plus_errors:
  "object_errors joiEmail feedbackValidation ex_body_plus =
     (if joiEmail ''a+b@example.com'' then [] else [''Please provide a valid email address''])"
  by (simp add: object_errors_def feedbackValidation_def ex_body_plus_def value_errors_def message_for_def)

lemma ex_plus_not_schema_valid:
  "\<not> schema_valid (new_Feedback ex_env ''Alice'' ''a+b@example.com'' ''0123456789'' ''I LOVE it but found a Bug'')"
  by code_simp

text \<open>
  C2. The first half of the claim holds on the code: a submission that has passed the
  request validation and whose lowercased email is that of a record of the last 60
  minutes is answered 429 and leaves the collection as it is (lemma
  \<open>submit_duplicate_rejected\<close> above). The second half fails: the submission below has a
  plus address. Whenever Joi's email rule accepts it, the request validation passes and
  no record has its email, yet the answer is 500 and nothing is stored: the \<open>match\<close>
  pattern of the schema has no plus sign, \<open>save()\<close> throws, and the \<open>catch\<close> block answers.
\<close>

theorem submit_fresh_plus_address_server_error:
  assumes "joiEmail ''a+b@example.com''"
  shows "joi_validate True joiEmail feedbackValidation ex_body_plus = Inr ex_body_plus \<and>
         submit joiEmail ex_env ex_body_plus [] = (ServerError, []) \<and>
         http_status (fst (submit joiEmail ex_env ex_body_plus [])) = 500"
proof -
  from assms have ok: "object_errors joiEmail feedbackValidation ex_body_plus = []"
    by (simp add: ex_body_plus_errors)
  then have v: "joi_validate True joiEmail feedbackValidation ex_body_plus = Inr ex_body_plus"
    by (simp add: joi_validate_Inr_iff)
  from submit_valid [OF ok ex_body_plus_fields, of ex_env "[]"] ex_plus_not_schema_valid
  have s: "submit joiEmail ex_env ex_body_plus [] = (ServerError, [])"
    by simp
  from v s show ?thesis by simp
qed

theorem submit_fresh_plus_address_server_error_witness:
  "(\<lambda>s. s = ''a+b@example.com'') ''a+b@example.com'' \<and>
   submit (\<lambda>s. s = ''a+b@example.com'') ex_env ex_body_plus [] = (ServerError, []) \<and>
   http_status (fst (submit (\<lambda>s. s = ''a+b@example.com'') ex_env ex_body_plus [])) = 500"
proof -
  have a: "(\<lambda>s. s = ''a+b@example.com'') ''a+b@example.com''"
    by simp
  from submit_fresh_plus_address_server_error [of "\<lambda>s. s = ''a+b@example.com''", OF a] a
  show ?thesis by blast
qed




text \<open>
  C5, as the claim states it, fails: a submission with a valid name, email and message
  and no \<open>contactNumber\<close> is answered 400 and nothing is stored.
\<close>

theorem submit_without_contactNumber_counterexample:
  "map_of ex_body_no_contact ''contactNumber'' = None \<and>
   submit email_match ex_env ex_body_no_contact [] =
     (ValidationError (quoted ''contactNumber'' @ '' is required'')
        [quoted ''contactNumber'' @ '' is required''], []) \<and>
   http_status (fst (submit email_match ex_env ex_body_no_contact [])) = 400"
proof -
  have 1: "map_of ex_body_no_contact ''contactNumber'' = None"
    by (simp add: ex_body_no_contact_def)
  have "object_errors email_match feedbackValidation ex_body_no_contact =
          [quoted ''contactNumber'' @ '' is required'']"
    by code_simp
  then have 2: "submit email_match ex_env ex_body_no_contact [] =
     (ValidationError (quoted ''contactNumber'' @ '' is required'')
        [quoted ''contactNumber'' @ '' is required''], [])"
    by (rule submit_invalid)
  from 1 2 show ?thesis by simp
qed

text \<open>
  C5, amended. The request validation requires \<open>contactNumber\<close>: every submission
  without it is answered 400 and the collection is unchanged; and whenever a record is
  created, the submission had a \<open>contactNumber\<close> string of 10 to 20 characters.
\<close>

theorem contactNumber_required:
  "(map_of body ''contactNumber'' = None \<longrightarrow>
      (\<exists>msg. submit joiEmail env body docs = (ValidationError msg [msg], docs)) \<and>
      http_status (fst (submit joiEmail env body docs)) = 400) \<and>
   (\<forall>i n m t s docs'.
      submit joiEmail env body docs = (Created i n m t s, docs') \<longrightarrow>
        (\<exists>c. map_of body ''contactNumber'' = Some (JString c) \<and> 10 \<le> length c \<and> length c \<le> 20))"
proof (intro conjI impI allI)
  assume "map_of body ''contactNumber'' = None"
  then have "object_errors joiEmail feedbackValidation body \<noteq> []"
    by (rule contactNumber_missing_errors)
  then obtain x xs where "object_errors joiEmail feedbackValidation body = x # xs"
    by (cases "object_errors joiEmail feedbackValidation body") auto
  then have s: "submit joiEmail env body docs = (ValidationError x [x], docs)"
    by (rule submit_invalid)
  then show "\<exists>msg. submit joiEmail env body docs = (ValidationError msg [msg], docs)"
    by blast
  from s show "http_status (fst (submit joiEmail env body docs)) = 400"
    by simp
next
  fix i n m t s docs'
  assume "submit joiEmail env body docs = (Created i n m t s, docs')"
  then obtain c where "map_of body ''contactNumber'' = Some (JString c)" "10 \<le> length c" "length c \<le> 20"
    by (rule submit_Created_cases)
  then show "\<exists>c. map_of body ''contactNumber'' = Some (JString c) \<and> 10 \<le> length c \<and> length c \<le> 20"
    by blast
qed

theorem contactNumber_required_witness:
  "map_of ex_body_no_contact ''contactNumber'' = None \<and>
   (\<exists>msg. submit email_match ex_env ex_body_no_contact [] = (ValidationError msg [msg], [])) \<and>
   http_status (fst (submit email_match ex_env ex_body_no_contact [])) = 400 \<and>
   submit email_match ex_env ex_body [] =
     (Created 2 ''Alice'' ''I LOVE it but found a Bug'' 2000 New,
      [pre_save True (new_Feedback ex_env ''Alice'' ''Alice@Example.com'' ''0123456789'' ''I LOVE it but found a Bug'')]) \<and>
   (\<exists>c. map_of ex_body ''contactNumber'' = Some (JString c) \<and> 10 \<le> length c \<and> length c \<le> 20)"
proof -
  have 1: "map_of ex_body_no_contact ''contactNumber'' = None"
    by (simp add: ex_body_no_contact_def)
  from contactNumber_required [of ex_body_no_contact email_match ex_env "[]"] 1
  have 2: "(\<exists>msg. submit email_match ex_env ex_body_no_contact [] = (ValidationError msg [msg], [])) \<and>
           http_status (fst (submit email_match ex_env ex_body_no_contact [])) = 400"
    by blast
  from contactNumber_required [of ex_body email_match ex_env "[]"] ex_submit_created
  have 3: "\<exists>c. map_of ex_body ''contactNumber'' = Some (JString c) \<and> 10 \<le> length c \<and> length c \<le> 20"
    by blast
  from 1 2 3 ex_submit_created show ?thesis by blast
qed

text \<open>
  C4. The submission below breaks the rules of three fields (name, contactNumber,
  message). The answer carries the message of the first field only, as the primary text
  and as the whole of \<open>details\<close>; a validation without \<open>abortEarly\<close> would have listed all
  three.
\<close>

theorem submit_reports_first_violation_only:
  "submit joiEmail ex_env ex_body_violations [] =
     (ValidationError ''Name must be at least 2 characters long''
        [''Name must be at least 2 characters long''], []) \<and>
   joi_validate False email_match feedbackValidation ex_body_violations =
     Inl [''Name must be at least 2 characters long'',
          ''Contact number must be at least 10 digits'',
          ''Message must be at least 10 characters long'']"
proof -
  have "\<exists>xs. object_errors joiEmail feedbackValidation ex_body_violations =
          ''Name must be at least 2 characters long'' # xs"
    by (simp add: ex_violations_all)
  then obtain xs where "object_errors joiEmail feedbackValidation ex_body_violations =
          ''Name must be at least 2 characters long'' # xs" by blast
  then have 1: "submit joiEmail ex_env ex_body_violations [] =
     (ValidationError ''Name must be at least 2 characters long''
        [''Name must be at least 2 characters long''], [])"
    by (rule submit_invalid)
  have 2: "joi_validate False email_match feedbackValidation ex_body_violations =
     Inl [''Name must be at least 2 characters long'',
          ''Contact number must be at least 10 digits'',
          ''Message must be at least 10 characters long'']"
    by code_simp
  from 1 2 show ?thesis by simp
qed


subsection \<open>Listing\<close>

lemma select_recent_paths:
  "select ''name message createdAt formattedDate timeAgo tags priority'' (doc_paths d) =
     [(''_id'', JId (fid d)), (''name'', JString (name d)), (''message'', JString (message d)),
      (''priority'', JString (priority_name (priority d))),
      (''tags'', JArray (map JString (tags d))), (''createdAt'', JDate (createdAt d))]"
  by (simp add: select_def doc_paths_def split: option.splits)

lemma select_public_paths:
  "select ''name message createdAt formattedDate timeAgo tags priority -_id'' (doc_paths d) =
     [(''name'', JString (name d)), (''message'', JString (message d)),
      (''priority'', JString (priority_name (priority d))),
      (''tags'', JArray (map JString (tags d))), (''createdAt'', JDate (createdAt d))]"
  by (simp add: select_def doc_paths_def split: option.splits)

lemma those_map_Some: "those (map (\<lambda>x. Some (f x)) xs) = Some (map f xs)"
  by (induction xs) simp_all

lemma toJSON_recent_item:
  "toJSON now (select ''name message createdAt formattedDate timeAgo tags priority'' (doc_paths d)) =
     Some [(''_id'', JId (fid d)), (''name'', JString (name d)), (''message'', JString (message d)),
           (''priority'', JString (priority_name (priority d))),
           (''tags'', JArray (map JString (tags d))), (''createdAt'', JDate (createdAt d)),
           (''formattedDate'', JFormattedDate (createdAt d)), (''timeAgo'', timeAgo now (createdAt d)),
           (''id'', JIdHex (fid d))]"
  by (simp add: select_recent_paths toJSON_def)

lemma toJSON_public_item:
  "toJSON now (select ''name message createdAt formattedDate timeAgo tags priority -_id'' (doc_paths d)) =
     Some [(''name'', JString (name d)), (''message'', JString (message d)),
           (''priority'', JString (priority_name (priority d))),
           (''tags'', JArray (map JString (tags d))), (''createdAt'', JDate (createdAt d)),
           (''formattedDate'', JFormattedDate (createdAt d)), (''timeAgo'', timeAgo now (createdAt d)),
           (''id'', JNull)]"
  by (simp add: select_public_paths toJSON_def)

lemma matches_public_only:
  assumes "q_publicOnly q = ''true''" and "q_status q = None \<or> q_status q = Some []"
  shows "matches (build_query q) d \<Longrightarrow> isPublic d \<and> status d \<noteq> Archived"
  using assms by (auto simp: matches_def build_query_def Let_def split: option.splits if_splits)

lemma matches_public_page:
  "matches (build_query \<lparr>q_page = p, q_limit = l, q_status = None, q_priority = None, q_publicOnly = ''true''\<rparr>)
     = (\<lambda>d. isPublic d \<and> status_name (status d) \<noteq> ''archived'')"
  by (rule ext) (simp add: matches_def build_query_def Let_def)

lemma set_cursor_limit: "set (cursor_limit n xs) \<subseteq> set xs"
  by (auto simp: cursor_limit_def dest: in_set_takeD)

lemma set_found_subset:
  "set (cursor_limit n (drop k (sort_createdAt_desc (filter P docs)))) \<subseteq> {d \<in> set docs. P d}"
proof -
  have "set (cursor_limit n (drop k (sort_createdAt_desc (filter P docs))))
          \<subseteq> set (drop k (sort_createdAt_desc (filter P docs)))"
    by (rule set_cursor_limit)
  also have "\<dots> \<subseteq> set (sort_createdAt_desc (filter P docs))"
    by (rule set_drop_subset)
  also have "\<dots> = {d \<in> set docs. P d}"
    by (simp add: sort_createdAt_desc_def)
  finally show ?thesis .
qed

lemma list_route_public_items:
  assumes "q_publicOnly q = ''true''" and "list_route now q docs = ListOk items pg"
  shows "items = map (\<lambda>d. [(''name'', JString (name d)), (''message'', JString (message d)),
                        (''priority'', JString (priority_name (priority d))),
                        (''tags'', JArray (map JString (tags d))), (''createdAt'', JDate (createdAt d)),
                        (''formattedDate'', JFormattedDate (createdAt d)),
                        (''timeAgo'', timeAgo now (createdAt d)), (''id'', JNull)])
             (cursor_limit (q_limit q)
                (drop (nat ((q_page q - 1) * q_limit q))
                   (sort_createdAt_desc (filter (matches (build_query q)) docs))))"
  using assms
  by (simp add: list_route_def Let_def toJSON_public_item those_map_Some split: if_splits)

lemma list_public_projection:
  assumes "q_publicOnly q = ''true''" and "list_route now q docs = ListOk items pg"
  shows "list_all (\<lambda>item. map_of item ''_id'' = None \<and> map_of item ''email'' = None \<and>
                          map_of item ''ipAddress'' = None \<and> map_of item ''userAgent'' = None) items"
  unfolding list_route_public_items [OF assms] by (simp add: list_all_iff)

lemma list_public_filter_without_status:
  assumes "q_publicOnly q = ''true''" and "q_status q = None \<or> q_status q = Some []"
    and "list_route now q docs = ListOk items pg"
  shows "\<exists>found. set found \<subseteq> {d \<in> set docs. isPublic d \<and> status d \<noteq> Archived} \<and>
           items = map (\<lambda>d. [(''name'', JString (name d)), (''message'', JString (message d)),
                        (''priority'', JString (priority_name (priority d))),
                        (''tags'', JArray (map JString (tags d))), (''createdAt'', JDate (createdAt d)),
                        (''formattedDate'', JFormattedDate (createdAt d)),
                        (''timeAgo'', timeAgo now (createdAt d)), (''id'', JNull)]) found"
proof -
  let ?found = "(cursor_limit (q_limit q)
                (drop (nat ((q_page q - 1) * q_limit q))
                   (sort_createdAt_desc (filter (matches (build_query q)) docs))))"
  have "set ?found \<subseteq> {d \<in> set docs. matches (build_query q) d}"
    by (rule set_found_subset)
  then have "set ?found \<subseteq> {d \<in> set docs. isPublic d \<and> status d \<noteq> Archived}"
    using matches_public_only [OF assms(1,2)] by blast
  with list_route_public_items [OF assms(1,3)] show ?thesis by blast
qed

lemma recent_and_public_page:
  fixes now :: int and limit :: int and docs :: "feedback list"
  defines "found \<equiv> cursor_limit limit
      (sort_createdAt_desc (filter (\<lambda>d. isPublic d \<and> status_name (status d) \<noteq> ''archived'') docs))"
  shows "recent_route now limit docs =
           RecentOk (map (\<lambda>d. [(''_id'', JId (fid d)), (''name'', JString (name d)),
                                (''message'', JString (message d)),
                                (''priority'', JString (priority_name (priority d))),
                                (''tags'', JArray (map JString (tags d))),
                                (''createdAt'', JDate (createdAt d)),
                                (''formattedDate'', JFormattedDate (createdAt d)),
                                (''timeAgo'', timeAgo now (createdAt d)),
                                (''id'', JIdHex (fid d))]) found) (length found)"
    and "\<exists>pg. list_route now \<lparr>q_page = 1, q_limit = limit, q_status = None, q_priority = None,
                               q_publicOnly = ''true''\<rparr> docs =
           ListOk (map (\<lambda>d. [(''name'', JString (name d)), (''message'', JString (message d)),
                              (''priority'', JString (priority_name (priority d))),
                              (''tags'', JArray (map JString (tags d))),
                              (''createdAt'', JDate (createdAt d)),
                              (''formattedDate'', JFormattedDate (createdAt d)),
                              (''timeAgo'', timeAgo now (createdAt d)), (''id'', JNull)]) found) pg"
  unfolding found_def
  by (simp_all add: recent_route_def getPublicFeedback_def list_route_def Let_def comp_def
      matches_public_page toJSON_recent_item toJSON_public_item those_map_Some)

text \<open>
  C7. The collection below holds one public record whose status is \<open>archived\<close>. The list
  route in \<open>publicOnly\<close> mode, asked for \<open>status=archived\<close>, returns it: the status
  parameter overwrites the condition \<open>status != archived\<close> that the mode has just set.
  (The lemmas \<open>list_public_projection\<close> and \<open>list_public_filter_without_status\<close> above show
  what does hold in \<open>publicOnly\<close> mode: no item has \<open>_id\<close>, \<open>email\<close>, \<open>ipAddress\<close> or
  \<open>userAgent\<close>, its virtual \<open>id\<close> is \<open>null\<close>, and without a status parameter every item
  comes from a public record that is not archived.)
\<close>

theorem list_publicOnly_returns_archived:
  "isPublic ex_archived \<and> status ex_archived = Archived \<and>
   list_route 2000 ex_query_archived [ex_archived] =
     ListOk [[(''name'', JString ''Alice''), (''message'', JString ''I LOVE it but found a Bug''),
              (''priority'', JString ''medium''), (''tags'', JArray []), (''createdAt'', JDate 1000),
              (''formattedDate'', JFormattedDate 1000), (''timeAgo'', JString ''Just now''),
              (''id'', JNull)]]
       \<lparr>currentPage = 1, totalPages = Some 1, totalItems = 1, itemsPerPage = 10,
        hasNextPage = False, hasPrevPage = False\<rparr>"
  by code_simp

text \<open>
  C8. For a collection of one public record, the item of the recent route carries the
  record's identifier, as \<open>_id\<close> and as the virtual \<open>id\<close>, and the item of the first public
  page of the list route carries neither (\<open>id\<close> is \<open>null\<close>): \<open>getPublicFeedback\<close> selects the
  same paths as the list route but without \<open>-_id\<close>. The records and their order do agree
  (lemma \<open>recent_and_public_page\<close> above).
\<close>

theorem recent_items_differ_from_public_page:
  "recent_route 2000 10 [ex_feedback] =
     RecentOk [[(''_id'', JId 1), (''name'', JString ''Alice''),
                (''message'', JString ''I LOVE it but found a Bug''),
                (''priority'', JString ''medium''), (''tags'', JArray []), (''createdAt'', JDate 1000),
                (''formattedDate'', JFormattedDate 1000), (''timeAgo'', JString ''Just now''),
                (''id'', JIdHex 1)]] 1 \<and>
   list_route 2000 ex_query_public [ex_feedback] =
     ListOk [[(''name'', JString ''Alice''), (''message'', JString ''I LOVE it but found a Bug''),
              (''priority'', JString ''medium''), (''tags'', JArray []), (''createdAt'', JDate 1000),
              (''formattedDate'', JFormattedDate 1000), (''timeAgo'', JString ''Just now''),
              (''id'', JNull)]]
       \<lparr>currentPage = 1, totalPages = Some 1, totalItems = 1, itemsPerPage = 10,
        hasNextPage = False, hasPrevPage = False\<rparr>"
  by code_simp

subsection \<open>Deletion\<close>

text \<open>
  C10. The delete route answers Unauthorized exactly when \<open>req.headers.adminKey\<close> differs
  from \<open>process.env.ADMIN_KEY\<close>, and then leaves the collection as it is. When both are
  undefined the comparison passes and the deletion is attempted: the answer is that of
  \<open>findByIdAndDelete\<close>.
\<close>

theorem delete_route_unauthorized_iff:
  "(fst (delete_route ADMIN_KEY headers oid docs) = Unauthorized) = (headers ''adminKey'' \<noteq> ADMIN_KEY) \<and>
   (headers ''adminKey'' \<noteq> ADMIN_KEY \<longrightarrow> snd (delete_route ADMIN_KEY headers oid docs) = docs) \<and>
   (ADMIN_KEY = None \<and> headers ''adminKey'' = None \<longrightarrow>
      delete_route ADMIN_KEY headers oid docs =
        (case oid of
           None \<Rightarrow> (ServerError, docs)
         | Some i \<Rightarrow>
             (case find (\<lambda>d. fid d = i) docs of
                None \<Rightarrow> (NotFound, docs)
              | Some d \<Rightarrow> (Deleted, remove1 d docs))))"
  by (auto simp: delete_route_def Let_def split: option.splits)

theorem delete_route_unauthorized_iff_witness:
  "fst (delete_route (Some ''secret'') (\<lambda>h. None) (Some 1) [ex_feedback]) = Unauthorized \<and>
   snd (delete_route (Some ''secret'') (\<lambda>h. None) (Some 1) [ex_feedback]) = [ex_feedback] \<and>
   delete_route None (\<lambda>h. None) (Some 1) [ex_feedback] = (Deleted, [])"
proof -
  have f: "find (\<lambda>d. fid d = 1) [ex_feedback] = Some ex_feedback"
    by (simp add: ex_feedback_def)
  have a: "(\<lambda>h::string. None::string option) ''adminKey'' \<noteq> Some ''secret''"
    by simp
  from delete_route_unauthorized_iff [of "Some ''secret''" "\<lambda>h. None" "Some 1" "[ex_feedback]"] a
  have 1: "fst (delete_route (Some ''secret'') (\<lambda>h. None) (Some 1) [ex_feedback]) = Unauthorized"
    and 2: "snd (delete_route (Some ''secret'') (\<lambda>h. None) (Some 1) [ex_feedback]) = [ex_feedback]"
    by blast+
  from delete_route_unauthorized_iff [of None "\<lambda>h. None" "Some 1" "[ex_feedback]"] f
  have 3: "delete_route None (\<lambda>h. None) (Some 1) [ex_feedback] = (Deleted, [])"
    by simp
  from 1 2 3 show ?thesis by blast
qed


subsection \<open>Statistics\<close>

lemma to_double_nonneg: "0 \<le> x \<Longrightarrow> 0 \<le> to_double x"
proof (cases "x = 0")
  case True
  then show ?thesis by (simp add: to_double_def)
next
  case False
  assume "0 \<le> x"
  with False have "0 < x" by simp
  then have "0 < to_double x" by (rule to_double_pos)
  then show ?thesis by simp
qed

lemma nearest_int_robust:
  fixes y y' :: rat
  assumes n: "0 < n" and y: "y = of_int a / of_nat n"
    and close: "\<bar>y' - y\<bar> < 1 / (2 * of_nat n)"
  shows "\<bar>of_int \<lfloor>y' + 1 / 2\<rfloor> - y\<bar> \<le> 1 / 2"
proof -
  define k where "k = \<lfloor>y' + 1 / 2\<rfloor>"
  define N :: rat where "N = of_nat n"
  have N: "0 < N" using n by (simp add: N_def)
  have "of_int k \<le> y' + 1 / 2" "y' + 1 / 2 < of_int k + 1"
    unfolding k_def by linarith+
  then have ky': "\<bar>of_int k - y'\<bar> \<le> 1 / 2" by (simp add: abs_if split: if_splits)
  have "\<bar>of_int k - y\<bar> \<le> \<bar>of_int k - y'\<bar> + \<bar>y' - y\<bar>" by simp
  with ky' close have lt: "\<bar>of_int k - y\<bar> < 1 / 2 + 1 / (2 * N)" by (simp add: N_def)
  have yN: "y * N = of_int a" using N by (simp add: y N_def)
  define z where "z = 2 * int n * k - 2 * a"
  have "(of_int k - y) * (2 * N) = 2 * N * of_int k - 2 * (y * N)"
    by (simp add: algebra_simps)
  also have "\<dots> = 2 * N * of_int k - 2 * of_int a"
    by (simp only: yN)
  also have "\<dots> = of_int z"
    by (simp add: z_def N_def)
  finally have z: "of_int z = (of_int k - y) * (2 * N)" by simp
  have "\<bar>(of_int z :: rat)\<bar> = \<bar>of_int k - y\<bar> * (2 * N)"
    using N by (simp add: z abs_mult)
  also have "\<dots> < (1 / 2 + 1 / (2 * N)) * (2 * N)"
    using lt N by (intro mult_strict_right_mono) auto
  also have "\<dots> = N + 1" using N by (simp add: field_simps)
  finally have "\<bar>(of_int z :: rat)\<bar> < of_int (int n + 1)" by (simp add: N_def)
  then have "\<bar>z\<bar> < int n + 1"
    by (simp only: of_int_abs [symmetric] of_int_less_iff)
  then have "\<bar>z\<bar> \<le> int n" by simp
  then have "(of_int \<bar>z\<bar> :: rat) \<le> of_int (int n)" by (simp only: of_int_le_iff)
  then have "\<bar>of_int k - y\<bar> * (2 * N) \<le> N"
    using N by (simp add: z abs_mult N_def)
  then have "\<bar>of_int k - y\<bar> * 2 \<le> 1"
    using N by (simp add: mult.assoc [symmetric] mult.commute [of _ N] mult.left_commute)
  then have "\<bar>of_int k - y\<bar> \<le> 1 / 2"
    by simp
  then show ?thesis by (simp add: k_def)
qed

lemma map_filter_Some: "map f xs = map Some rs \<Longrightarrow> List.map_filter f xs = rs"
proof (induction xs arbitrary: rs)
  case Nil then show ?case by (simp add: List.map_filter_simps)
next
  case (Cons x xs)
  then obtain r rs' where "rs = r # rs'" "f x = Some r" "map f xs = map Some rs'"
    by (cases rs) auto
  with Cons.IH show ?case by (simp add: List.map_filter_simps)
qed

lemma count_by_rating:
  "length (filter (\<lambda>d. case rating d of None \<Rightarrow> False | Some r \<Rightarrow> P r) docs)
     = length (filter P (List.map_filter rating docs))"
  by (induction docs) (auto simp: List.map_filter_simps split: option.splits)

lemma length_map_filter_le: "length (List.map_filter f xs) \<le> length xs"
  by (induction xs) (auto simp: List.map_filter_simps split: option.splits)

lemma map_filter_Nil_docs: "List.map_filter f xs \<noteq> [] \<Longrightarrow> xs \<noteq> []"
  by (auto simp: List.map_filter_simps)

lemma sum_list_bounds:
  fixes rs :: "int list"
  assumes "list_all (\<lambda>r. 1 \<le> r \<and> r \<le> 5) rs"
  shows "int (length rs) \<le> sum_list rs \<and> sum_list rs \<le> 5 * int (length rs)"
  using assms by (induction rs) auto

lemma mean_bounds:
  fixes rs :: "int list"
  assumes "list_all (\<lambda>r. 1 \<le> r \<and> r \<le> 5) rs" and "rs \<noteq> []"
  shows "1 \<le> (of_int (sum_list rs) / of_nat (length rs) :: rat)"
    and "(of_int (sum_list rs) / of_nat (length rs) :: rat) \<le> 5"
proof -
  have n: "(0::rat) < of_nat (length rs)" using assms(2) by simp
  from sum_list_bounds [OF assms(1)]
  have "(of_int (int (length rs)) :: rat) \<le> of_int (sum_list rs)"
    and "(of_int (sum_list rs) :: rat) \<le> of_int (5 * int (length rs))"
    by (simp_all only: of_int_le_iff)
  then have a: "(of_nat (length rs) :: rat) \<le> of_int (sum_list rs)"
    and b: "(of_int (sum_list rs) :: rat) \<le> 5 * of_nat (length rs)"
    by simp_all
  from a n show "1 \<le> (of_int (sum_list rs) / of_nat (length rs) :: rat)"
    by (simp add: le_divide_eq)
  from b n show "(of_int (sum_list rs) / of_nat (length rs) :: rat) \<le> 5"
    by (simp add: divide_le_eq)
qed

lemma getStats_highRatingCount:
  "highRatingCount (getStats docs) = length (filter (\<lambda>r. 4 \<le> r) (List.map_filter rating docs))"
  by (simp add: getStats_def Let_def count_by_rating)

lemma getStats_average_unrated:
  "List.map_filter rating docs = [] \<Longrightarrow> averageRating (getStats docs) = to_double (48 / 10)"
  by (simp add: getStats_def Let_def rating_group_def)

lemma getStats_average_rated:
  assumes "List.map_filter rating docs \<noteq> []"
    and "to_double (of_int (sum_list (List.map_filter rating docs))
                     / of_nat (length (List.map_filter rating docs))) \<noteq> 0"
  shows "averageRating (getStats docs) =
           to_double (toFixed1 (to_double (of_int (sum_list (List.map_filter rating docs))
                                             / of_nat (length (List.map_filter rating docs)))))"
proof -
  from assms(1) have "docs \<noteq> []" by (rule map_filter_Nil_docs)
  with assms show ?thesis
    by (simp add: getStats_def Let_def rating_group_def)
qed

lemma getStats_satisfaction:
  "satisfactionPercentage (getStats docs) =
     (if docs = [] then 97
      else Math_round (to_double (to_double
             (of_nat (length (filter (\<lambda>r. 4 \<le> r) (List.map_filter rating docs)))
                / of_nat (length docs)) * 100)))"
  by (simp add: getStats_def Let_def count_by_rating)

lemma average_is_nearest_tenth:
  fixes rs :: "int list"
  assumes r: "list_all (\<lambda>r. 1 \<le> r \<and> r \<le> 5) rs" and ne: "rs \<noteq> []"
    and len: "length rs \<le> 2 ^ 40"
  defines "mean \<equiv> (of_int (sum_list rs) / of_nat (length rs) :: rat)"
  shows "to_double mean \<noteq> 0"
    and "\<exists>k. toFixed1 (to_double mean) = of_int k / 10 \<and> \<bar>of_int k / 10 - mean\<bar> \<le> 1 / 20"
proof -
  define x where "x = to_double mean"
  define n where "n = length rs"
  have n: "0 < n" using ne by (simp add: n_def)
  have m: "1 \<le> mean" "mean \<le> 5"
    unfolding mean_def using r ne by (rule mean_bounds)+
  then have mp: "0 < mean" by simp
  then have xp: "0 < x" unfolding x_def by (rule to_double_pos)
  then show "to_double mean \<noteq> 0" by (simp add: x_def)
  have "\<bar>x - mean\<bar> \<le> \<bar>mean\<bar> / 2 ^ 53" unfolding x_def by (rule to_double_error)
  also have "\<dots> \<le> 5 / 2 ^ 53" using m by (intro divide_right_mono) auto
  finally have e: "\<bar>x - mean\<bar> \<le> 5 / 2 ^ 53" .
  define k where "k = \<lfloor>x * 10 + 1 / 2\<rfloor>"
  have tf: "toFixed1 x = of_int k / 10"
    using xp by (simp add: toFixed1_def k_def)
  have y: "mean * 10 = of_int (sum_list rs * 10) / of_nat n"
    by (simp add: mean_def n_def)
  have "(of_nat n :: rat) \<le> of_nat (2 ^ 40)"
    using len unfolding n_def by (simp only: of_nat_le_iff)
  then have nb: "(of_nat n :: rat) \<le> 2 ^ 40" by simp
  have np: "(0::rat) < of_nat n" using n by simp
  have "\<bar>x * 10 - mean * 10\<bar> = \<bar>(x - mean) * 10\<bar>"
    by (simp only: left_diff_distrib)
  also have "\<dots> = \<bar>x - mean\<bar> * 10"
    by (simp only: abs_mult abs_numeral)
  also have "\<dots> \<le> 5 / 2 ^ 53 * 10" using e by (intro mult_right_mono) auto
  also have "\<dots> < 1 / (2 * 2 ^ 40)" by simp
  also have "\<dots> \<le> 1 / (2 * of_nat n)"
    using nb np by (intro divide_left_mono) auto
  finally have close: "\<bar>x * 10 - mean * 10\<bar> < 1 / (2 * of_nat n)" .
  from nearest_int_robust [OF n y close]
  have "\<bar>of_int k - mean * 10\<bar> \<le> 1 / 2" by (simp add: k_def)
  then have "\<bar>of_int k / 10 - mean\<bar> \<le> 1 / 20"
    by (simp add: abs_if split: if_splits)
  with tf show "\<exists>k. toFixed1 (to_double mean) = of_int k / 10 \<and> \<bar>of_int k / 10 - mean\<bar> \<le> 1 / 20"
    unfolding x_def by blast
qed

lemma percentage_is_nearest_integer:
  fixes h t :: nat
  assumes ht: "h \<le> t" and t: "0 < t" and len: "t \<le> 2 ^ 40"
  shows "\<bar>of_int (Math_round (to_double (to_double (of_nat h / of_nat t) * 100)))
           - 100 * of_nat h / of_nat t\<bar> \<le> (1 / 2 :: rat)"
proof -
  define q :: rat where "q = of_nat h / of_nat t"
  define q1 where "q1 = to_double q"
  define x where "x = to_double (q1 * 100)"
  have tp: "(0::rat) < of_nat t" using t by simp
  have q0: "0 \<le> q" by (simp add: q_def)
  have "(of_nat h :: rat) \<le> of_nat t" using ht by (simp only: of_nat_le_iff)
  then have q1': "q \<le> 1" using tp by (simp add: q_def divide_le_eq)
  have "\<bar>q1 - q\<bar> \<le> \<bar>q\<bar> / 2 ^ 53" unfolding q1_def by (rule to_double_error)
  also have "\<dots> \<le> 1 / 2 ^ 53" using q0 q1' by (intro divide_right_mono) auto
  finally have e1: "\<bar>q1 - q\<bar> \<le> 1 / 2 ^ 53" .
  have q1p: "0 \<le> q1" unfolding q1_def using q0 by (rule to_double_nonneg)
  from e1 q1' have q1u: "q1 \<le> 2" by (simp add: abs_if split: if_splits)
  have "\<bar>x - q1 * 100\<bar> \<le> \<bar>q1 * 100\<bar> / 2 ^ 53" unfolding x_def by (rule to_double_error)
  also have "\<dots> \<le> 200 / 2 ^ 53" using q1p q1u by (intro divide_right_mono) auto
  finally have e2: "\<bar>x - q1 * 100\<bar> \<le> 200 / 2 ^ 53" .
  have "\<bar>q1 * 100 - q * 100\<bar> = \<bar>(q1 - q) * 100\<bar>"
    by (simp only: left_diff_distrib)
  also have "\<dots> = \<bar>q1 - q\<bar> * 100"
    by (simp only: abs_mult abs_numeral)
  also have "\<dots> \<le> 1 / 2 ^ 53 * 100" using e1 by (intro mult_right_mono) auto
  finally have e3: "\<bar>q1 * 100 - q * 100\<bar> \<le> 100 / 2 ^ 53" by simp
  have "\<bar>x - q * 100\<bar> \<le> \<bar>x - q1 * 100\<bar> + \<bar>q1 * 100 - q * 100\<bar>" by simp
  with e2 e3 have "\<bar>x - q * 100\<bar> \<le> 300 / 2 ^ 53" by simp
  also have "(300 / 2 ^ 53 :: rat) < 1 / (2 * 2 ^ 40)" by simp
  also have "\<dots> \<le> 1 / (2 * of_nat t)"
  proof -
    have "(of_nat t :: rat) \<le> of_nat (2 ^ 40)" using len by (simp only: of_nat_le_iff)
    then have "(of_nat t :: rat) \<le> 2 ^ 40" by simp
    then show ?thesis using tp by (intro divide_left_mono) auto
  qed
  finally have close: "\<bar>x - q * 100\<bar> < 1 / (2 * of_nat t)" .
  have y: "q * 100 = of_int (int h * 100) / of_nat t" by (simp add: q_def)
  from nearest_int_robust [OF t y close]
  have "\<bar>of_int \<lfloor>x + 1 / 2\<rfloor> - q * 100\<bar> \<le> 1 / 2" .
  then show ?thesis
    by (simp add: Math_round_def x_def q1_def q_def algebra_simps)
qed


lemma map_filter_rated:
  "List.map_filter rating (map (\<lambda>r. d\<lparr>rating := Some r\<rparr>) rs) = rs"
  by (induction rs) (simp_all add: List.map_filter_simps)

lemma ex_ratings_rated: "List.map_filter rating ex_ratings = [5, 5, 4, 3, 2]"
  by (simp add: ex_ratings_def map_filter_rated)

lemma ex_tie_rated: "List.map_filter rating ex_tie_store = ex_tie_ratings"
  by (simp add: ex_tie_store_def map_filter_rated)

lemma ex_split_rated: "List.map_filter rating ex_split_store = ex_split_ratings"
  by (simp add: ex_split_store_def map_filter_rated)

lemma ex_tie_mean:
  "(of_int (sum_list ex_tie_ratings) / of_nat (length ex_tie_ratings) :: rat) = 87 / 20"
  by (simp add: ex_tie_ratings_def sum_list_replicate)

lemma ex_double_mean: "to_double (87 / 20) = 4897664594765414 / 2 ^ 50"
proof -
  have "to_double (87 / 20) = of_int 4897664594765414 / 2 ^ 50"
    by (rule to_double_eq_scaled) (simp_all add: abs_less_iff)
  then show ?thesis by simp
qed

lemma ex_double_43: "to_double (43 / 10) = 4841369599423283 / 2 ^ 50"
proof -
  have "to_double (43 / 10) = of_int 4841369599423283 / 2 ^ 50"
    by (rule to_double_eq_scaled) (simp_all add: abs_less_iff)
  then show ?thesis by simp
qed

lemma ex_double_44: "to_double (44 / 10) = 4953959590107546 / 2 ^ 50"
proof -
  have "to_double (44 / 10) = of_int 4953959590107546 / 2 ^ 50"
    by (rule to_double_eq_scaled) (simp_all add: abs_less_iff)
  then show ?thesis by simp
qed

lemma ex_double_ratio: "to_double (23 / 40) = 5179139571476070 / 2 ^ 53"
proof -
  have "to_double (23 / 40) = of_int 5179139571476070 / 2 ^ 53"
    by (rule to_double_eq_scaled) (simp_all add: abs_less_iff)
  then show ?thesis by simp
qed

lemma ex_double_percent:
  "to_double (5179139571476070 / 2 ^ 53 * 100) = 8092405580431359 / 2 ^ 47"
proof -
  have "to_double (5179139571476070 / 2 ^ 53 * 100) = of_int 8092405580431359 / 2 ^ 47"
    by (rule to_double_eq_scaled) (simp_all add: abs_less_iff)
  then show ?thesis by simp
qed

lemma ex_tie_average: "averageRating (getStats ex_tie_store) = to_double (43 / 10)"
proof -
  have ne: "List.map_filter rating ex_tie_store \<noteq> []"
    by (simp add: ex_tie_rated ex_tie_ratings_def)
  have m: "(of_int (sum_list (List.map_filter rating ex_tie_store))
             / of_nat (length (List.map_filter rating ex_tie_store)) :: rat) = 87 / 20"
    by (simp only: ex_tie_rated ex_tie_mean)
  have nz: "to_double (of_int (sum_list (List.map_filter rating ex_tie_store))
             / of_nat (length (List.map_filter rating ex_tie_store))) \<noteq> 0"
    unfolding m ex_double_mean by simp
  have tf: "toFixed1 (4897664594765414 / 2 ^ 50) = 43 / 10"
    by (simp add: toFixed1_def floor_eq_iff)
  have "averageRating (getStats ex_tie_store) = to_double (toFixed1 (to_double (87 / 20)))"
    using getStats_average_rated [OF ne nz] unfolding m .
  also have "\<dots> = to_double (toFixed1 (4897664594765414 / 2 ^ 50))"
    by (simp only: ex_double_mean)
  also have "\<dots> = to_double (43 / 10)"
    by (simp only: tf)
  finally show ?thesis .
qed

lemma ex_split_satisfaction: "satisfactionPercentage (getStats ex_split_store) = 57"
proof -
  have h: "length (filter (\<lambda>r. 4 \<le> r) ex_split_ratings) = 23"
    by (simp add: ex_split_ratings_def)
  have t: "length ex_split_store = 40" "ex_split_store \<noteq> []"
    by (simp_all add: ex_split_store_def ex_split_ratings_def)
  have q: "(of_nat (length (filter (\<lambda>r. 4 \<le> r) (List.map_filter rating ex_split_store)))
             / of_nat (length ex_split_store) :: rat) = 23 / 40"
    by (simp add: ex_split_rated h t(1))
  have r: "Math_round (8092405580431359 / 2 ^ 47) = 57"
    by (simp add: Math_round_def floor_eq_iff)
  have "satisfactionPercentage (getStats ex_split_store) =
          Math_round (to_double (to_double (23 / 40) * 100))"
    by (simp only: getStats_satisfaction t(2) if_False q)
  also have "\<dots> = Math_round (to_double (5179139571476070 / 2 ^ 53 * 100))"
    by (simp only: ex_double_ratio)
  also have "\<dots> = Math_round (8092405580431359 / 2 ^ 47)"
    by (simp only: ex_double_percent)
  also have "\<dots> = 57"
    by (rule r)
  finally show ?thesis .
qed

text \<open>
  C1, as the claim states it, fails in two ways. A collection of one record without a
  rating is not empty, and its \<open>averageRating\<close> is the fallback 4.8. And where the exact
  value lies halfway, the doubles of the computation fall short of it: twenty ratings
  with the mean 4.35 give 4.3, not 4.4, and 23 high ratings out of 40 (57.5 percent) give
  57, not 58.
\<close>

theorem getStats_unrated_and_tie_counterexample:
  "[ex_unrated] \<noteq> [] \<and> averageRating (getStats [ex_unrated]) = to_double (48 / 10) \<and>
   (of_int (sum_list ex_tie_ratings) / of_nat (length ex_tie_ratings) :: rat) = 87 / 20 \<and>
   List.map_filter rating ex_tie_store = ex_tie_ratings \<and>
   rat_of_int (round (87 / 20 * 10 :: rat)) / 10 = 44 / 10 \<and>
   averageRating (getStats ex_tie_store) = to_double (43 / 10) \<and>
   to_double (43 / 10) \<noteq> to_double (44 / 10) \<and>
   highRatingCount (getStats ex_split_store) = 23 \<and> length ex_split_store = 40 \<and>
   round (100 * 23 / 40 :: rat) = 58 \<and>
   satisfactionPercentage (getStats ex_split_store) = 57"
proof -
  have 1: "averageRating (getStats [ex_unrated]) = to_double (48 / 10)"
    by (rule getStats_average_unrated) (simp add: ex_unrated_def List.map_filter_simps)
  have 2: "rat_of_int (round (87 / 20 * 10 :: rat)) / 10 = 44 / 10"
    by (simp add: round_def floor_eq_iff)
  have 3: "to_double (43 / 10) \<noteq> to_double (44 / 10)"
    unfolding ex_double_43 ex_double_44 by simp
  have 4: "highRatingCount (getStats ex_split_store) = 23"
    by (simp add: getStats_highRatingCount ex_split_rated ex_split_ratings_def)
  have 5: "length ex_split_store = 40"
    by (simp add: ex_split_store_def ex_split_ratings_def)
  have 6: "round (100 * 23 / 40 :: rat) = 58"
    by (simp add: round_def floor_eq_iff)
  from 1 2 3 4 5 6 ex_tie_mean ex_tie_rated ex_tie_average ex_split_satisfaction
  show ?thesis by simp
qed

text \<open>
  C1, amended. Let \<open>rs\<close> be the ratings of the records that have one. Then
  \<open>highRatingCount\<close> is the number of ratings of at least 4. \<open>averageRating\<close> is 4.8 when no
  record has a rating; when some have, each between 1 and 5, in a collection of at most
  \<open>2 ^ 40\<close> records, it is the double of a one-decimal number within 0.05 of the mean of
  \<open>rs\<close>: the mean rounded to one decimal, where a mean exactly halfway may go to either
  neighbour. \<open>satisfactionPercentage\<close> is 97 for the empty collection, and for a non-empty
  one of at most \<open>2 ^ 40\<close> records an integer within 0.5 of
  \<open>100 * highRatingCount / total\<close>: that value rounded, where a value exactly halfway may go
  to either neighbour. For five records with the ratings 5, 5, 4, 3, 2 the three values
  are 3, 60 and 3.8.
\<close>

theorem getStats_rating_aggregates:
  assumes rs: "rs = List.map_filter rating docs"
  shows "highRatingCount (getStats docs) = length (filter (\<lambda>r. 4 \<le> r) rs) \<and>
         (rs = [] \<longrightarrow> averageRating (getStats docs) = to_double (48 / 10)) \<and>
         (rs \<noteq> [] \<and> list_all (\<lambda>r. 1 \<le> r \<and> r \<le> 5) rs \<and> length docs \<le> 2 ^ 40 \<longrightarrow>
            (\<exists>k. averageRating (getStats docs) = to_double (of_int k / 10) \<and>
                 \<bar>of_int k / 10 - of_int (sum_list rs) / of_nat (length rs)\<bar> \<le> (1 / 20 :: rat))) \<and>
         (docs = [] \<longrightarrow> satisfactionPercentage (getStats docs) = 97) \<and>
         (docs \<noteq> [] \<and> length docs \<le> 2 ^ 40 \<longrightarrow>
            \<bar>of_int (satisfactionPercentage (getStats docs))
               - 100 * of_nat (highRatingCount (getStats docs)) / of_nat (length docs)\<bar> \<le> (1 / 2 :: rat)) \<and>
         (map rating docs = [Some 5, Some 5, Some 4, Some 3, Some 2] \<longrightarrow>
            highRatingCount (getStats docs) = 3 \<and> satisfactionPercentage (getStats docs) = 60 \<and>
            averageRating (getStats docs) = to_double (38 / 10))"
proof -
  have hc: "highRatingCount (getStats docs) = length (filter (\<lambda>r. 4 \<le> r) rs)"
    by (simp add: getStats_highRatingCount rs)
  have un: "averageRating (getStats docs) = to_double (48 / 10)" if "rs = []"
    using that by (intro getStats_average_unrated) (simp add: rs)
  have av: "\<exists>k. averageRating (getStats docs) = to_double (of_int k / 10) \<and>
                 \<bar>of_int k / 10 - of_int (sum_list rs) / of_nat (length rs)\<bar> \<le> (1 / 20 :: rat)"
    if ne: "rs \<noteq> []" and range: "list_all (\<lambda>r. 1 \<le> r \<and> r \<le> 5) rs"
      and size: "length docs \<le> 2 ^ 40"
  proof -
    have lenrs: "length rs \<le> 2 ^ 40"
      using length_map_filter_le [of rating docs] size by (simp add: rs)
    from average_is_nearest_tenth [OF range ne lenrs]
    obtain k where nz: "to_double (of_int (sum_list rs) / of_nat (length rs)) \<noteq> 0"
      and k: "toFixed1 (to_double (of_int (sum_list rs) / of_nat (length rs))) = of_int k / 10"
             "\<bar>of_int k / 10 - of_int (sum_list rs) / of_nat (length rs)\<bar> \<le> (1 / 20 :: rat)"
      by blast
    have "averageRating (getStats docs) =
            to_double (toFixed1 (to_double (of_int (sum_list rs) / of_nat (length rs))))"
      using ne nz unfolding rs by (rule getStats_average_rated)
    then have "averageRating (getStats docs) = to_double (of_int k / 10)"
      by (simp only: k(1))
    with k(2) show ?thesis by blast
  qed
  have s0: "satisfactionPercentage (getStats docs) = 97" if "docs = []"
    using that by (simp add: getStats_satisfaction)
  have s1: "\<bar>of_int (satisfactionPercentage (getStats docs))
               - 100 * of_nat (highRatingCount (getStats docs)) / of_nat (length docs)\<bar> \<le> (1 / 2 :: rat)"
    if ne: "docs \<noteq> []" and size: "length docs \<le> 2 ^ 40"
  proof -
    have "length (filter (\<lambda>r. 4 \<le> r) rs) \<le> length rs" by simp
    also have "\<dots> \<le> length docs" unfolding rs by (rule length_map_filter_le)
    finally have h: "length (filter (\<lambda>r. 4 \<le> r) rs) \<le> length docs" .
    have t: "0 < length docs" using ne by simp
    from percentage_is_nearest_integer [OF h t size] show ?thesis
      using ne by (simp add: getStats_satisfaction hc rs)
  qed
  have ex: "highRatingCount (getStats docs) = 3 \<and> satisfactionPercentage (getStats docs) = 60 \<and>
            averageRating (getStats docs) = to_double (38 / 10)"
    if five: "map rating docs = [Some 5, Some 5, Some 4, Some 3, Some 2]"
  proof -
    from five have "map rating docs = map Some [5, 5, 4, 3, 2]" by simp
    then have r5: "rs = [5, 5, 4, 3, 2]" unfolding rs by (rule map_filter_Some)
    from five have "length (map rating docs) = 5" by simp
    then have l5: "length docs = 5" by simp
    then have ne: "docs \<noteq> []" by auto
    from l5 have size: "length docs \<le> 2 ^ 40" by simp
    have range: "list_all (\<lambda>r. 1 \<le> r \<and> r \<le> 5) rs" by (simp add: r5)
    have rne: "rs \<noteq> []" by (simp add: r5)
    have h3: "highRatingCount (getStats docs) = 3" by (simp add: hc r5)
    from s1 [OF ne size] have "\<bar>rat_of_int (satisfactionPercentage (getStats docs)) - 60\<bar> \<le> 1 / 2"
      by (simp add: h3 l5)
    then have "\<bar>rat_of_int (satisfactionPercentage (getStats docs) - 60)\<bar> < rat_of_int 1"
      by (simp add: abs_if split: if_splits)
    then have "\<bar>satisfactionPercentage (getStats docs) - 60\<bar> < 1"
      by (simp only: of_int_abs [symmetric] of_int_less_iff)
    then have p60: "satisfactionPercentage (getStats docs) = 60" by simp
    from av [OF rne range size] r5
    obtain k where k: "averageRating (getStats docs) = to_double (of_int k / 10)"
      and "\<bar>rat_of_int k / 10 - 19 / 5\<bar> \<le> 1 / 20" by auto
    then have "\<bar>rat_of_int (k - 38)\<bar> < rat_of_int 1"
      by (simp add: abs_if split: if_splits)
    then have "\<bar>k - 38\<bar> < 1"
      by (simp only: of_int_abs [symmetric] of_int_less_iff)
    then have "k = 38" by simp
    with k h3 p60 show ?thesis by simp
  qed
  from hc un av s0 s1 ex show ?thesis by blast
qed

theorem getStats_rating_aggregates_witness:
  "[5, 5, 4, 3, 2] = List.map_filter rating ex_ratings \<and>
   list_all (\<lambda>r. 1 \<le> r \<and> r \<le> 5) [5, 5, 4, 3, 2 :: int] \<and>
   length ex_ratings \<le> 2 ^ 40 \<and>
   map rating ex_ratings = [Some 5, Some 5, Some 4, Some 3, Some 2] \<and>
   highRatingCount (getStats ex_ratings) = 3 \<and>
   satisfactionPercentage (getStats ex_ratings) = 60 \<and>
   averageRating (getStats ex_ratings) = to_double (38 / 10)"
proof -
  have a: "[5, 5, 4, 3, 2] = List.map_filter rating ex_ratings"
    by (simp add: ex_ratings_rated)
  have b: "list_all (\<lambda>r. 1 \<le> r \<and> r \<le> 5) [5, 5, 4, 3, 2 :: int]"
    by simp
  have c: "length ex_ratings \<le> 2 ^ 40"
    by (simp add: ex_ratings_def)
  have d: "map rating ex_ratings = [Some 5, Some 5, Some 4, Some 3, Some 2]"
    by (simp add: ex_ratings_def)
  from getStats_rating_aggregates [OF a] a b c d show ?thesis by blast
qed


end
